theory Spec2Isabelle
  imports Complex_Main "HOL-Library.Log_Nat"
begin

section \<open>Data model of the configuration class\<close>

text \<open>
  The C++ type \<^verbatim>\<open>double\<close> is modelled by a type variable \<open>'r\<close> that carries only
  the operations the code applies to it (\<open>+\<close>, \<open>-\<close>, \<open>*\<close>, \<open>/\<close>, \<open><\<close>, \<open>abs\<close>, the
  constants \<open>0.0\<close> and \<open>2.0 = 1 + 1\<close>), with no algebraic law assumed.  A theorem stated
  for every such \<open>'r\<close> holds whatever the arithmetic does (rounding included); a theorem
  that needs the laws of exact arithmetic is stated for an ordered field, and the
  rounded arithmetic of binary64 is the instance \<open>dbl\<close> defined further down.

  An object as \<^verbatim>\<open>config.cpp\<close> uses it: the public fields \<^verbatim>\<open>o_type\<close>, \<^verbatim>\<open>pos_x\<close>,
  \<^verbatim>\<open>pos_y\<close>, \<^verbatim>\<open>orientation\<close>, \<^verbatim>\<open>recalculate\<close> and the energy kept behind
  \<^verbatim>\<open>set_energy\<close> / \<^verbatim>\<open>get_energy\<close>.
\<close>

record 'r object =
  o_type :: int
  pos_x :: 'r
  pos_y :: 'r
  orientation :: 'r
  cached_energy :: 'r
  recalculate :: bool

text \<open>
  The configuration: \<^verbatim>\<open>the_topology\<close> is a pointer, \<open>None\<close> is the null pointer.
  \<^verbatim>\<open>obj_list\<close> is the list of the objects themselves: every constructor of the class
  allocates a fresh object per entry, so no two entries alias.  The class \<^verbatim>\<open>o_list\<close>
  is not among the sources; as the code uses it, \<^verbatim>\<open>size()\<close> is the length of the
  list, \<^verbatim>\<open>get(i)\<close> its entry \<open>i\<close> counted from 0, and \<^verbatim>\<open>add\<close> appends.
\<close>

record ('r, 't) config =
  x_size :: 'r
  y_size :: 'r
  unchanged :: bool
  saved_energy :: 'r
  obj_list :: "'r object list"
  the_topology :: "'t option"
  is_periodic :: bool

text \<open>
  Modelled from the spec: \<^verbatim>\<open>object::set_energy\<close> and \<^verbatim>\<open>object::get_energy\<close>
  (\<^verbatim>\<open>object.cpp\<close> is not among the sources).  The spec: they "manipulate the
  cached_energy field; set_energy additionally clears recalculate".
\<close>

definition set_energy :: "'r \<Rightarrow> 'r object \<Rightarrow> 'r object" where
  "set_energy v ob = ob\<lparr>cached_energy := v, recalculate := False\<rparr>"

definition get_energy :: "'r object \<Rightarrow> 'r" where
  "get_energy ob = cached_energy ob"

text \<open>
  Modelled from the spec: the constructor \<^verbatim>\<open>object(o_type, x, y, angle)\<close>
  (\<^verbatim>\<open>object.cpp\<close> is not among the sources).  It stores its four arguments; the
  spec does not say which energy and which flag a new object starts with, so both are
  parameters (\<open>e0\<close>, \<open>r0\<close>).
\<close>

definition new_object :: "'r \<Rightarrow> bool \<Rightarrow> int \<Rightarrow> 'r \<Rightarrow> 'r \<Rightarrow> 'r \<Rightarrow> 'r object" where
  "new_object e0 r0 t x y angle =
     \<lparr>o_type = t, pos_x = x, pos_y = y, orientation = angle,
      cached_energy = e0, recalculate = r0\<rparr>"

section \<open>Construction\<close>

text \<open>\<^verbatim>\<open>config::config()\<close>, lines 18-26.\<close>

definition config_empty :: "('r::{zero,one}, 't) config" where
  "config_empty =
     \<lparr>x_size = 1, y_size = 1, unchanged = True, saved_energy = 0,
      obj_list = [], the_topology = None, is_periodic = False\<rparr>"

text \<open>
  \<^verbatim>\<open>config::config(config& orig)\<close>, lines 84-101.  \<open>mk\<close> is the object constructor,
  \<open>new_topology\<close> the value of \<^verbatim>\<open>new topology()\<close>.  The loop builds one new object per
  object of \<open>orig\<close>, in order, from its type, position and orientation.
\<close>

definition config_copy ::
  "(int \<Rightarrow> 'r \<Rightarrow> 'r \<Rightarrow> 'r \<Rightarrow> 'r object) \<Rightarrow> 't \<Rightarrow> ('r, 't) config \<Rightarrow> ('r, 't) config" where
  "config_copy mk new_topology orig =
     \<lparr>x_size = x_size orig, y_size = y_size orig, unchanged = unchanged orig,
      saved_energy = saved_energy orig,
      obj_list = map (\<lambda>my_obj1. mk (o_type my_obj1) (pos_x my_obj1) (pos_y my_obj1)
                                     (orientation my_obj1)) (obj_list orig),
      the_topology = Some new_topology, is_periodic = is_periodic orig\<rparr>"

definition area :: "('r::times, 't) config \<Rightarrow> 'r" where
  "area c = x_size c * y_size c"

definition n_objects :: "('r, 't) config \<Rightarrow> nat" where
  "n_objects c = length (obj_list c)"

section \<open>Energy\<close>

text \<open>
  Lines 150-153 (and 156-159 for the other axis): the shift that moves the partner to
  its closest image along one axis.  \<open>p2\<close> is the partner's coordinate, \<open>p1\<close> the
  coordinate of the object whose energy is computed, \<open>len\<close> the box length.
  \<^verbatim>\<open>abs\<close> is taken at type \<^verbatim>\<open>double\<close> (the overload \<^verbatim>\<open>std::abs(double)\<close>; with the
  C function \<^verbatim>\<open>int abs(int)\<close> the two distances would be compared after truncation).
\<close>

definition image_shift :: "'r::{zero,plus,minus,uminus,abs,ord} \<Rightarrow> 'r \<Rightarrow> 'r \<Rightarrow> 'r" where
  "image_shift p2 p1 len =
     (let r = p2 - p1;
          dx = (if r < 0 then len else - len);
          r2 = r + dx
      in if \<bar>r2\<bar> < \<bar>r\<bar> then dx else 0)"

text \<open>
  The partner as line 162 hands it to \<^verbatim>\<open>interaction\<close>: its centre moved by the two
  shifts, everything else as it is.
\<close>

definition shifted :: "'r::plus \<Rightarrow> 'r \<Rightarrow> 'r object \<Rightarrow> 'r object" where
  "shifted dx dy ob = ob\<lparr>pos_x := pos_x ob + dx, pos_y := pos_y ob + dy\<rparr>"

text \<open>Lines 164-167: "and move back again".\<close>

definition unshifted :: "'r::minus \<Rightarrow> 'r \<Rightarrow> 'r object \<Rightarrow> 'r object" where
  "unshifted dx dy ob = ob\<lparr>pos_x := pos_x ob - dx, pos_y := pos_y ob - dy\<rparr>"

text \<open>
  The body of the inner loop, lines 142-168, on the configuration and the accumulator
  \<^verbatim>\<open>value\<close>.  \<open>interaction\<close> is \<^verbatim>\<open>object::interaction\<close> (not among the sources), called
  on object \<open>i1\<close> with the force field, the topology pointer and the partner \<open>i2\<close>.
  In the non-periodic case \<^verbatim>\<open>dx\<close> and \<^verbatim>\<open>dy\<close> stay \<open>0.0\<close> and the partner is not written.
\<close>

definition energy_pair ::
  "('f \<Rightarrow> 't option \<Rightarrow> 'r object \<Rightarrow> 'r object \<Rightarrow> 'r) \<Rightarrow> 'f \<Rightarrow> nat \<Rightarrow> nat \<Rightarrow>
   ('r::{zero,plus,minus,uminus,abs,ord}, 't) config \<times> 'r \<Rightarrow> ('r, 't) config \<times> 'r" where
  "energy_pair interaction the_force i1 i2 s =
     (case s of (c, val) \<Rightarrow>
        if i1 \<noteq> i2 then
          (let my_obj1 = obj_list c ! i1;
               my_obj2 = obj_list c ! i2
           in if is_periodic c then
                (let dx = image_shift (pos_x my_obj2) (pos_x my_obj1) (x_size c);
                     dy = image_shift (pos_y my_obj2) (pos_y my_obj1) (y_size c);
                     moved = shifted dx dy my_obj2;
                     val' = val + interaction the_force (the_topology c) my_obj1 moved
                 in (c\<lparr>obj_list := (obj_list c)[i2 := unshifted dx dy moved]\<rparr>, val'))
              else (c, val + interaction the_force (the_topology c) my_obj1 my_obj2))
        else (c, val))"

text \<open>
  The body of the outer loop, lines 138-177.  \<open>box_energy\<close> is \<^verbatim>\<open>object::box_energy\<close>
  (not among the sources).
\<close>

definition energy_object ::
  "('f \<Rightarrow> 't option \<Rightarrow> 'r object \<Rightarrow> 'r object \<Rightarrow> 'r) \<Rightarrow>
   ('f \<Rightarrow> 't option \<Rightarrow> 'r \<Rightarrow> 'r \<Rightarrow> 'r object \<Rightarrow> 'r) \<Rightarrow> 'f \<Rightarrow> nat \<Rightarrow>
   ('r::{zero,plus,minus,uminus,abs,ord}, 't) config \<Rightarrow> ('r, 't) config" where
  "energy_object interaction box_energy the_force i1 c =
     (let c1 =
        (if recalculate (obj_list c ! i1) then
           (case fold (energy_pair interaction the_force i1) [0..<length (obj_list c)] (c, 0) of
              (c', val) \<Rightarrow>
                (let val' = (if \<not> is_periodic c'
                             then val + box_energy the_force (the_topology c') (x_size c')
                                          (y_size c') (obj_list c' ! i1)
                             else val)
                 in c'\<lparr>obj_list := (obj_list c')[i1 := set_energy val' (obj_list c' ! i1)]\<rparr>))
         else c)
      in c1\<lparr>saved_energy := saved_energy c1 + get_energy (obj_list c1 ! i1)\<rparr>)"

text \<open>
  \<^verbatim>\<open>config::energy\<close>, lines 129-183: the returned value and the configuration it
  leaves behind.  The constant \<^verbatim>\<open>2.0\<close> is written \<open>1 + 1\<close>.
\<close>

definition config_energy ::
  "('f \<Rightarrow> 't option \<Rightarrow> 'r object \<Rightarrow> 'r object \<Rightarrow> 'r) \<Rightarrow>
   ('f \<Rightarrow> 't option \<Rightarrow> 'r \<Rightarrow> 'r \<Rightarrow> 'r object \<Rightarrow> 'r) \<Rightarrow> 'f \<Rightarrow>
   ('r::{zero,one,plus,minus,uminus,abs,ord,inverse}, 't) config \<Rightarrow> 'r \<times> ('r, 't) config" where
  "config_energy interaction box_energy the_force c =
     (let c' =
        (if \<not> unchanged c then
           (fold (energy_object interaction box_energy the_force)
                 [0..<length (obj_list c)] (c\<lparr>saved_energy := 0\<rparr>))\<lparr>unchanged := True\<rparr>
         else c)
      in (saved_energy c' / (1 + 1), c'))"

section \<open>Trial moves and invalidation\<close>

text \<open>
  \<^verbatim>\<open>o_list::get\<close> is not among the sources, so what it does with an index outside
  the list is not known: the operations that take an index return \<open>None\<close> there.

  \<^verbatim>\<open>config::expand\<close>, lines 284-294.  \<open>ob_expand\<close> is \<^verbatim>\<open>object::expand\<close> (not among
  the sources), applied to each object after its flag is set.
\<close>

definition config_expand ::
  "('r \<Rightarrow> 'r object \<Rightarrow> 'r object) \<Rightarrow> 'r::times \<Rightarrow> ('r, 't) config \<Rightarrow> ('r, 't) config" where
  "config_expand ob_expand dl c =
     c\<lparr>x_size := x_size c * dl, y_size := y_size c * dl, unchanged := False,
       obj_list := map (\<lambda>ob. ob_expand dl (ob\<lparr>recalculate := True\<rparr>)) (obj_list c)\<rparr>"

text \<open>
  \<^verbatim>\<open>config::move\<close>, lines 303-306, and \<^verbatim>\<open>config::rotate\<close>, lines 315-317.
  \<open>ob_move\<close> and \<open>ob_rotate\<close> are \<^verbatim>\<open>object::move\<close> and \<^verbatim>\<open>object::rotate\<close> (not among the
  sources); they draw from the process-wide random generator, whose state \<open>g\<close> is
  passed through.  \<open>two_pi\<close> is the constant \<^verbatim>\<open>M_2PI\<close> of \<^verbatim>\<open>common.h\<close>.
\<close>

definition config_rotate ::
  "('g \<Rightarrow> 'r \<Rightarrow> 'r object \<Rightarrow> 'r object \<times> 'g) \<Rightarrow> nat \<Rightarrow> 'r \<Rightarrow>
   ('r, 't) config \<times> 'g \<Rightarrow> (('r, 't) config \<times> 'g) option" where
  "config_rotate ob_rotate obj_number theta_max s =
     (case s of (c, g) \<Rightarrow>
        if obj_number < length (obj_list c) then
          (case ob_rotate g theta_max (obj_list c ! obj_number) of
             (ob, g') \<Rightarrow> Some (c\<lparr>obj_list := (obj_list c)[obj_number := ob]\<rparr>, g'))
        else None)"

definition config_move ::
  "('g \<Rightarrow> 'r \<Rightarrow> 'r \<Rightarrow> 'r \<Rightarrow> bool \<Rightarrow> 'r object \<Rightarrow> 'r object \<times> 'g) \<Rightarrow>
   ('g \<Rightarrow> 'r \<Rightarrow> 'r object \<Rightarrow> 'r object \<times> 'g) \<Rightarrow> 'r \<Rightarrow> nat \<Rightarrow> 'r \<Rightarrow>
   ('r, 't) config \<times> 'g \<Rightarrow> (('r, 't) config \<times> 'g) option" where
  "config_move ob_move ob_rotate two_pi obj_number dl_max s =
     (case s of (c, g) \<Rightarrow>
        if obj_number < length (obj_list c) then
          (case ob_move g dl_max (x_size c) (y_size c) (is_periodic c) (obj_list c ! obj_number) of
             (ob, g') \<Rightarrow>
               (case ob_rotate g' two_pi ob of
                  (ob', g'') \<Rightarrow> Some (c\<lparr>obj_list := (obj_list c)[obj_number := ob']\<rparr>, g'')))
        else None)"

text \<open>
  \<^verbatim>\<open>config::invalidate_within\<close>, lines 326-337: the loop body, then the loop.
  \<open>ob_distance\<close> is \<^verbatim>\<open>object::distance\<close> (not among the sources), called on the
  reference object with the other object, the box and the periodic flag.
\<close>

definition invalidate_step ::
  "('r object \<Rightarrow> 'r object \<Rightarrow> 'r \<Rightarrow> 'r \<Rightarrow> bool \<Rightarrow> 'r) \<Rightarrow> 'r::ord \<Rightarrow> nat \<Rightarrow> nat \<Rightarrow>
   ('r, 't) config \<Rightarrow> ('r, 't) config" where
  "invalidate_step ob_distance distance index i c =
     (if i \<noteq> index then
        (let obj1 = obj_list c ! index;
             obj2 = obj_list c ! i
         in if ob_distance obj1 obj2 (x_size c) (y_size c) (is_periodic c) < distance
            then c\<lparr>obj_list := (obj_list c)[i := obj2\<lparr>recalculate := True\<rparr>]\<rparr>
            else c)
      else c)"

definition config_invalidate_within ::
  "('r object \<Rightarrow> 'r object \<Rightarrow> 'r \<Rightarrow> 'r \<Rightarrow> bool \<Rightarrow> 'r) \<Rightarrow> 'r::ord \<Rightarrow> nat \<Rightarrow>
   ('r, 't) config \<Rightarrow> ('r, 't) config option" where
  "config_invalidate_within ob_distance distance index c =
     (if index < length (obj_list c) then
        Some (fold (invalidate_step ob_distance distance index) [0..<n_objects c] c)
      else None)"

text \<open>
  Modelled from the spec: \<^verbatim>\<open>object::distance\<close> (\<^verbatim>\<open>object.cpp\<close> is not among the
  sources), the "center-to-center distance under minimum-image when periodic", with
  the image chosen per axis as in \<^verbatim>\<open>config::energy\<close>.
\<close>

definition object_distance :: "real object \<Rightarrow> real object \<Rightarrow> real \<Rightarrow> real \<Rightarrow> bool \<Rightarrow> real" where
  "object_distance ob other lx ly periodic =
     (let dx = pos_x other - pos_x ob + (if periodic then image_shift (pos_x other) (pos_x ob) lx else 0);
          dy = pos_y other - pos_y ob + (if periodic then image_shift (pos_y other) (pos_y ob) ly else 0)
      in sqrt (dx * dx + dy * dy))"

section \<open>What the energy computes, in the spec's words\<close>

text \<open>
  The image of the partner that lines 148-161 build before \<^verbatim>\<open>interaction\<close> is called:
  the partner itself under walls, the partner with its centre shifted along each axis
  under periodic boundaries.
\<close>

definition closest_image ::
  "('r::{zero,plus,minus,uminus,abs,ord}, 't) config \<Rightarrow> 'r object \<Rightarrow> 'r object \<Rightarrow> 'r object" where
  "closest_image c my_obj1 my_obj2 =
     (if is_periodic c
      then shifted (image_shift (pos_x my_obj2) (pos_x my_obj1) (x_size c))
                   (image_shift (pos_y my_obj2) (pos_y my_obj1) (y_size c)) my_obj2
      else my_obj2)"

text \<open>
  The spec's \<open>E_i\<close>: the sum over \<open>j \<noteq> i\<close> of the interaction of object \<open>i\<close> with (the
  image of) object \<open>j\<close>, plus the wall term when the configuration is not periodic.
\<close>

definition spec_object_energy ::
  "('f \<Rightarrow> 't option \<Rightarrow> 'r object \<Rightarrow> 'r object \<Rightarrow> 'r) \<Rightarrow>
   ('f \<Rightarrow> 't option \<Rightarrow> 'r \<Rightarrow> 'r \<Rightarrow> 'r object \<Rightarrow> 'r) \<Rightarrow> 'f \<Rightarrow>
   ('r::{uminus,abs,ord,monoid_add,minus}, 't) config \<Rightarrow> nat \<Rightarrow> 'r" where
  "spec_object_energy interaction box_energy the_force c i =
     (\<Sum>j \<leftarrow> filter (\<lambda>j. j \<noteq> i) [0..<length (obj_list c)].
        interaction the_force (the_topology c) (obj_list c ! i)
          (closest_image c (obj_list c ! i) (obj_list c ! j)))
     + (if is_periodic c then 0
        else box_energy the_force (the_topology c) (x_size c) (y_size c) (obj_list c ! i))"

text \<open>
  Object \<open>i\<close> after the spec's refresh: \<open>E_i\<close> stored by \<^verbatim>\<open>set_energy\<close> when the object's
  flag is set, the object as it is otherwise.
\<close>

definition refreshed ::
  "('f \<Rightarrow> 't option \<Rightarrow> 'r object \<Rightarrow> 'r object \<Rightarrow> 'r) \<Rightarrow>
   ('f \<Rightarrow> 't option \<Rightarrow> 'r \<Rightarrow> 'r \<Rightarrow> 'r object \<Rightarrow> 'r) \<Rightarrow> 'f \<Rightarrow>
   ('r::{uminus,abs,ord,monoid_add,minus}, 't) config \<Rightarrow> nat \<Rightarrow> 'r object" where
  "refreshed interaction box_energy the_force c i =
     (if recalculate (obj_list c ! i)
      then set_energy (spec_object_energy interaction box_energy the_force c i) (obj_list c ! i)
      else obj_list c ! i)"

text \<open>
  \<^verbatim>\<open>object::interaction\<close> is not among the sources.  The spec defines it from the
  types, centres and orientations of the two objects; what the energy theorems need of
  it is that it does not read the partner's cached energy or flag.
\<close>

definition reads_placement_only ::
  "('f \<Rightarrow> 't option \<Rightarrow> 'r object \<Rightarrow> 'r object \<Rightarrow> 'r) \<Rightarrow> 'f \<Rightarrow> 't option \<Rightarrow> bool" where
  "reads_placement_only interaction the_force topo =
     (\<forall>a b e r. interaction the_force topo a (b\<lparr>cached_energy := e, recalculate := r\<rparr>)
                = interaction the_force topo a b)"

text \<open>What the claims call the observable state of an object.\<close>

definition placement :: "'r object \<Rightarrow> int \<times> 'r \<times> 'r \<times> 'r" where
  "placement ob = (o_type ob, pos_x ob, pos_y ob, orientation ob)"

text \<open>The part of it that no arithmetic touches: the type and the orientation.\<close>

definition rigid_part :: "'r object \<Rightarrow> int \<times> 'r" where
  "rigid_part ob = (o_type ob, orientation ob)"

text \<open>
  One pass of the outer loop of \<^verbatim>\<open>config::energy\<close>, in the spec's words.  During the
  pass of object \<open>i\<close> no object is read after it has been written: object \<open>i\<close> itself is
  written last, a partner only after its own interaction.  So every interaction of the
  pass is taken on the objects as they are stored when the pass begins.

  \<open>moved_back\<close> is the partner as the pass leaves it: under periodic boundaries its
  centre shifted to the image and shifted back, in the arithmetic of \<open>'r\<close>.
\<close>

definition moved_back ::
  "('r::{zero,plus,minus,uminus,abs,ord}, 't) config \<Rightarrow> 'r object \<Rightarrow> 'r object \<Rightarrow> 'r object" where
  "moved_back c my_obj1 my_obj2 =
     (if is_periodic c
      then unshifted (image_shift (pos_x my_obj2) (pos_x my_obj1) (x_size c))
                     (image_shift (pos_y my_obj2) (pos_y my_obj1) (y_size c))
             (closest_image c my_obj1 my_obj2)
      else my_obj2)"

text \<open>
  The energy of object \<open>i\<close> on the objects stored in \<open>c\<close>: the interactions with the
  image of every other object, added in the order of the indices to \<open>0.0\<close>, and then the
  wall term when the configuration is not periodic.
\<close>

definition pass_energy ::
  "('f \<Rightarrow> 't option \<Rightarrow> 'r object \<Rightarrow> 'r object \<Rightarrow> 'r) \<Rightarrow>
   ('f \<Rightarrow> 't option \<Rightarrow> 'r \<Rightarrow> 'r \<Rightarrow> 'r object \<Rightarrow> 'r) \<Rightarrow> 'f \<Rightarrow>
   ('r::{zero,plus,minus,uminus,abs,ord}, 't) config \<Rightarrow> nat \<Rightarrow> 'r" where
  "pass_energy interaction box_energy the_force c i =
     (let pairs = foldl (+) 0
            (map (\<lambda>j. interaction the_force (the_topology c) (obj_list c ! i)
                        (closest_image c (obj_list c ! i) (obj_list c ! j)))
                 (filter (\<lambda>j. j \<noteq> i) [0..<length (obj_list c)]))
      in if is_periodic c then pairs
         else pairs + box_energy the_force (the_topology c) (x_size c) (y_size c) (obj_list c ! i))"

text \<open>
  The pass of object \<open>i\<close>: when the object is flagged, its energy is stored by
  \<^verbatim>\<open>set_energy\<close> and every other object is left as \<open>moved_back\<close> gives it; in both cases
  the cached energy of the object is added to \<open>saved_energy\<close>.
\<close>

definition spec_pass ::
  "('f \<Rightarrow> 't option \<Rightarrow> 'r object \<Rightarrow> 'r object \<Rightarrow> 'r) \<Rightarrow>
   ('f \<Rightarrow> 't option \<Rightarrow> 'r \<Rightarrow> 'r \<Rightarrow> 'r object \<Rightarrow> 'r) \<Rightarrow> 'f \<Rightarrow> nat \<Rightarrow>
   ('r::{zero,plus,minus,uminus,abs,ord}, 't) config \<Rightarrow> ('r, 't) config" where
  "spec_pass interaction box_energy the_force i c =
     (if recalculate (obj_list c ! i) then
        c\<lparr>obj_list :=
            map (\<lambda>j. if j = i
                      then set_energy (pass_energy interaction box_energy the_force c i) (obj_list c ! i)
                      else moved_back c (obj_list c ! i) (obj_list c ! j))
                [0..<length (obj_list c)],
          saved_energy := saved_energy c + pass_energy interaction box_energy the_force c i\<rparr>
      else c\<lparr>saved_energy := saved_energy c + get_energy (obj_list c ! i)\<rparr>)"

text \<open>
  The configuration when the pass of object \<open>i\<close> begins: \<open>saved_energy\<close> set to \<open>0.0\<close>
  (line 135) and the passes of the objects \<open>0, \<dots>, i - 1\<close> done.
\<close>

definition at_pass ::
  "('f \<Rightarrow> 't option \<Rightarrow> 'r object \<Rightarrow> 'r object \<Rightarrow> 'r) \<Rightarrow>
   ('f \<Rightarrow> 't option \<Rightarrow> 'r \<Rightarrow> 'r \<Rightarrow> 'r object \<Rightarrow> 'r) \<Rightarrow> 'f \<Rightarrow>
   ('r::{zero,plus,minus,uminus,abs,ord}, 't) config \<Rightarrow> nat \<Rightarrow> ('r, 't) config" where
  "at_pass interaction box_energy the_force c i =
     fold (spec_pass interaction box_energy the_force) [0..<i] (c\<lparr>saved_energy := 0\<rparr>)"

section \<open>The arithmetic of \<^verbatim>\<open>double\<close>\<close>

text \<open>
  IEEE 754 binary64 with the default rounding (to nearest, ties to even), on the reals:
  \<open>binary64 x\<close> is the double nearest to \<open>x\<close>.  A double has 53 significant bits, so
  for \<open>2^e \<le> |x| < 2^(e+1)\<close> the doubles around \<open>x\<close> are the multiples of \<open>2^(e-52)\<close>; below
  the normal range (\<open>e < -1022\<close>) they are the multiples of \<open>2^-1074\<close>.  Overflow to
  infinity, NaN and the sign of zero are not modelled.
\<close>

definition round_half_even :: "real \<Rightarrow> int" where
  "round_half_even y =
     (let f = \<lfloor>y\<rfloor>; d = y - of_int f
      in if d < 1 / 2 then f else if 1 / 2 < d then f + 1 else if even f then f else f + 1)"

text \<open>The exponent \<open>e\<close> with \<open>2^e \<le> |x| < 2^(e+1)\<close>, for \<open>x \<noteq> 0\<close>.\<close>

definition exponent2 :: "real \<Rightarrow> int" where
  "exponent2 x = (if 1 \<le> \<bar>x\<bar> then bitlen \<lfloor>\<bar>x\<bar>\<rfloor> - 1 else - bitlen (\<lceil>1 / \<bar>x\<bar>\<rceil> - 1))"

definition pow2 :: "int \<Rightarrow> real" where
  "pow2 e = (if 0 \<le> e then 2 ^ nat e else 1 / 2 ^ nat (- e))"

definition binary64 :: "real \<Rightarrow> real" where
  "binary64 x =
     (if x = 0 then 0
      else (let q = pow2 (max (exponent2 x) (- 1022) - 52)
            in of_int (round_half_even (x / q)) * q))"

text \<open>
  The type of doubles: a value, and the operations of the code rounded to binary64.
  Negation, \<^verbatim>\<open>abs\<close> and the comparison are exact.
\<close>

datatype dbl = Dbl (real_of: real)

instantiation dbl :: "{zero,one,plus,minus,uminus,times,inverse,abs,ord}"
begin
definition zero_dbl :: dbl where "zero_dbl = Dbl 0"
definition one_dbl :: dbl where "one_dbl = Dbl 1"
definition plus_dbl :: "dbl \<Rightarrow> dbl \<Rightarrow> dbl" where
  "plus_dbl a b = Dbl (binary64 (real_of a + real_of b))"
definition minus_dbl :: "dbl \<Rightarrow> dbl \<Rightarrow> dbl" where
  "minus_dbl a b = Dbl (binary64 (real_of a - real_of b))"
definition times_dbl :: "dbl \<Rightarrow> dbl \<Rightarrow> dbl" where
  "times_dbl a b = Dbl (binary64 (real_of a * real_of b))"
definition divide_dbl :: "dbl \<Rightarrow> dbl \<Rightarrow> dbl" where
  "divide_dbl a b = Dbl (binary64 (real_of a / real_of b))"
definition inverse_dbl :: "dbl \<Rightarrow> dbl" where
  "inverse_dbl a = Dbl (binary64 (1 / real_of a))"
definition uminus_dbl :: "dbl \<Rightarrow> dbl" where
  "uminus_dbl a = Dbl (- real_of a)"
definition abs_dbl :: "dbl \<Rightarrow> dbl" where
  "abs_dbl a = Dbl \<bar>real_of a\<bar>"
definition less_dbl :: "dbl \<Rightarrow> dbl \<Rightarrow> bool" where
  "less_dbl a b = (real_of a < real_of b)"
definition less_eq_dbl :: "dbl \<Rightarrow> dbl \<Rightarrow> bool" where
  "less_eq_dbl a b = (real_of a \<le> real_of b)"
instance ..
end

section \<open>The configuration file\<close>

text \<open>
  The C library's formatted output, as far as \<^verbatim>\<open>config::write\<close> uses it: \<^verbatim>\<open>%d\<close> and
  \<^verbatim>\<open>%9f\<close> (six digits after the point, rounded to nearest on the exact value of the
  double, padded with spaces on the left to nine characters).
\<close>

definition digit_char :: "nat \<Rightarrow> char" where
  "digit_char d = ''0123456789'' ! d"

function digits :: "nat \<Rightarrow> string" where
  "digits n = (if n < 10 then [digit_char n] else digits (n div 10) @ [digit_char (n mod 10)])"
  by pat_completeness auto
termination
  by (relation "measure id") auto

definition pad_left :: "char \<Rightarrow> nat \<Rightarrow> string \<Rightarrow> string" where
  "pad_left ch w s = replicate (w - length s) ch @ s"

definition printf_d :: "int \<Rightarrow> string" where
  "printf_d n = (if n < 0 then ''-'' @ digits (nat (- n)) else digits (nat n))"

definition printf_9f :: "real \<Rightarrow> string" where
  "printf_9f v =
     (let m = nat (round_half_even (\<bar>v\<bar> * 1000000))
      in pad_left (CHR '' '') 9
           ((if v < 0 then ''-'' else []) @ digits (m div 1000000) @ ''.''
             @ pad_left (CHR ''0'') 6 (digits (m mod 1000000))))"

definition newline :: char where
  "newline = CHR 0x0A"

text \<open>
  \<^verbatim>\<open>config::write\<close>, lines 196-207: the text written to \<^verbatim>\<open>dest\<close>.  The header format
  is \<^verbatim>\<open>"%9f2 %9f2 \n"\<close>: each size in \<^verbatim>\<open>%9f\<close>, followed by the character \<^verbatim>\<open>2\<close>.
  \<open>val\<close> gives the exact value of a double; \<open>ob_write\<close> is the text \<^verbatim>\<open>object::write\<close>
  (not among the sources) writes for one object.
\<close>

definition config_write :: "('r \<Rightarrow> real) \<Rightarrow> ('r object \<Rightarrow> string) \<Rightarrow> ('r, 't) config \<Rightarrow> string" where
  "config_write val ob_write c =
     printf_9f (val (x_size c)) @ ''2 '' @ printf_9f (val (y_size c)) @ ''2 '' @ [newline]
     @ printf_d (int (length (obj_list c))) @ [newline]
     @ concat (map ob_write (obj_list c))"

text \<open>
  The C library's formatted input, as far as the file constructor uses it, in the way
  glibc's \<^verbatim>\<open>fscanf\<close> works on a system whose \<^verbatim>\<open>long\<close> has 64 bits.  A conversion
  either stores a number and leaves the input after it, or stores nothing and leaves
  the input after the characters it has consumed; the forms of \<^verbatim>\<open>%lf\<close> that are not
  modelled (hexadecimal, infinity, NaN) are the third case.
\<close>

datatype 'a scanned = Converted 'a string | No_conversion string | Not_modelled

text \<open>White space in a format, and before a number, skips any white space.\<close>

definition is_space :: "char \<Rightarrow> bool" where
  "is_space ch = (ch = CHR '' '' \<or> ch = CHR 0x09 \<or> ch = CHR 0x0A \<or> ch = CHR 0x0B
                  \<or> ch = CHR 0x0C \<or> ch = CHR 0x0D)"

definition skip_space :: "string \<Rightarrow> string" where
  "skip_space s = dropWhile is_space s"

definition is_digit :: "char \<Rightarrow> bool" where
  "is_digit ch = (48 \<le> (of_char ch :: nat) \<and> (of_char ch :: nat) \<le> 57)"

definition digits_value :: "string \<Rightarrow> int" where
  "digits_value ds = foldl (\<lambda>a ch. 10 * a + (of_char ch - 48)) 0 ds"

definition scan_sign :: "string \<Rightarrow> bool \<times> string" where
  "scan_sign s =
     (case s of
        ch # rest \<Rightarrow> if ch = CHR ''-'' then (True, rest)
                     else if ch = CHR ''+'' then (False, rest) else (False, s)
      | [] \<Rightarrow> (False, s))"

definition starts_with :: "string \<Rightarrow> string \<Rightarrow> bool" where
  "starts_with chs s = (case s of ch # _ \<Rightarrow> ch \<in> set chs | [] \<Rightarrow> False)"

text \<open>
  \<^verbatim>\<open>%d\<close> into an \<^verbatim>\<open>int\<close>: an optional sign and decimal digits.  The digits are
  converted as \<^verbatim>\<open>strtol\<close> does, to a \<^verbatim>\<open>long\<close> (a value outside its range becomes the
  nearest bound), and the \<^verbatim>\<open>long\<close> is stored into the \<^verbatim>\<open>int\<close>, which keeps its low 32
  bits.  A sign that no digit follows is consumed.
\<close>

definition to_long :: "int \<Rightarrow> int" where
  "to_long v = max (- (2 ^ 63)) (min (2 ^ 63 - 1) v)"

definition to_int32 :: "int \<Rightarrow> int" where
  "to_int32 v = (v + 2 ^ 31) mod 2 ^ 32 - 2 ^ 31"

definition scan_d :: "string \<Rightarrow> int scanned" where
  "scan_d s =
     (case scan_sign (skip_space s) of
        (neg, s1) \<Rightarrow>
          (let ds = takeWhile is_digit s1
           in if ds = [] then No_conversion s1
              else Converted
                     (to_int32 (to_long (if neg then - digits_value ds else digits_value ds)))
                     (dropWhile is_digit s1)))"

text \<open>
  \<^verbatim>\<open>%lf\<close>: an optional sign, digits, optionally a point and more digits (at least one
  digit in all), and optionally an exponent: the letter \<^verbatim>\<open>e\<close>, an optional sign and
  digits.  The letter \<^verbatim>\<open>e\<close> after the digits, and a sign right after it, are consumed
  also when no digit follows; the number is then the one before the letter.  The
  scanner returns the number read as an exact decimal.
\<close>

definition scan_lf :: "string \<Rightarrow> real scanned" where
  "scan_lf s =
     (case scan_sign (skip_space s) of
        (neg, s1) \<Rightarrow>
          (let ds1 = takeWhile is_digit s1;
               s2 = dropWhile is_digit s1;
               has_point = starts_with ''.'' s2;
               ds2 = (if has_point then takeWhile is_digit (tl s2) else []);
               s3 = (if has_point then dropWhile is_digit (tl s2) else s2);
               m = of_int (digits_value ds1) + of_int (digits_value ds2) / 10 ^ length ds2;
               has_exp = starts_with ''eE'' s3;
               (eneg, s4) = (if has_exp then scan_sign (tl s3) else (False, s3));
               eds = (if has_exp then takeWhile is_digit s4 else []);
               s5 = (if has_exp then dropWhile is_digit s4 else s3);
               v = (if eneg then m / 10 ^ nat (digits_value eds)
                    else m * 10 ^ nat (digits_value eds))
           in if starts_with ''iInN'' s1
                 \<or> (starts_with ''0'' s1 \<and> starts_with ''xX'' (tl s1)) then Not_modelled
              else if ds1 = [] \<and> ds2 = [] then No_conversion s3
              else Converted (if neg then - v else v) s5))"

text \<open>
  The \<^verbatim>\<open>fscanf\<close> of line 65, format \<^verbatim>\<open>"%d %lf %lf %lf\n"\<close>, on the variables
  \<^verbatim>\<open>o_type\<close> (here \<open>type1\<close>), \<^verbatim>\<open>x_pos\<close>, \<^verbatim>\<open>y_pos\<close> and \<^verbatim>\<open>angle\<close> (\<open>None\<close>: not yet assigned).  It stops at
  the first conversion that fails and leaves the other variables as they are; the
  source ignores what it returns.  The result \<open>None\<close> is an input that is not modelled.
\<close>

type_synonym line_vars = "int option \<times> real option \<times> real option \<times> real option"

definition fscanf_object :: "line_vars \<Rightarrow> string \<Rightarrow> (line_vars \<times> string) option" where
  "fscanf_object vars s =
     (case vars of (type1, x_pos, y_pos, angle) \<Rightarrow>
        (case scan_d s of
           Not_modelled \<Rightarrow> None
         | No_conversion r \<Rightarrow> Some (vars, r)
         | Converted t s1 \<Rightarrow>
             (case scan_lf s1 of
                Not_modelled \<Rightarrow> None
              | No_conversion r \<Rightarrow> Some ((Some t, x_pos, y_pos, angle), r)
              | Converted x s2 \<Rightarrow>
                  (case scan_lf s2 of
                     Not_modelled \<Rightarrow> None
                   | No_conversion r \<Rightarrow> Some ((Some t, Some x, y_pos, angle), r)
                   | Converted y s3 \<Rightarrow>
                       (case scan_lf s3 of
                          Not_modelled \<Rightarrow> None
                        | No_conversion r \<Rightarrow> Some ((Some t, Some x, Some y, angle), r)
                        | Converted a s4 \<Rightarrow>
                            Some ((Some t, Some x, Some y, Some a), skip_space s4))))))"

text \<open>
  The loop of the file constructor, lines 62-68: one \<^verbatim>\<open>fscanf\<close> and one new object per
  round, built from the four variables as they are after the call, so from the values
  of an earlier round where a conversion failed.  \<open>conv\<close> turns the decimal read into
  the double stored; \<open>mk\<close> is the object constructor.  A round that hands the
  constructor a variable never assigned has no defined result: \<open>None\<close>.
\<close>

fun read_objects ::
  "(real \<Rightarrow> 'r) \<Rightarrow> (int \<Rightarrow> 'r \<Rightarrow> 'r \<Rightarrow> 'r \<Rightarrow> 'r object) \<Rightarrow> nat \<Rightarrow> line_vars \<Rightarrow> string \<Rightarrow>
   'r object list option" where
  "read_objects conv mk 0 vars s = Some []"
| "read_objects conv mk (Suc n) vars s =
     (case fscanf_object vars s of
        Some ((Some type1, Some x_pos, Some y_pos, Some angle), s') \<Rightarrow>
          (case read_objects conv mk n (Some type1, Some x_pos, Some y_pos, Some angle) s' of
             Some objs \<Rightarrow> Some (mk type1 (conv x_pos) (conv y_pos) (conv angle) # objs)
           | None \<Rightarrow> None)
      | _ \<Rightarrow> None)"

text \<open>
  \<^verbatim>\<open>config::config(FILE *src)\<close>, lines 50-78, on the text of the file.  The source
  ignores what \<^verbatim>\<open>fscanf\<close> returns.  The result is \<open>None\<close> when a size or the number of
  objects is never assigned (the constructor leaves or uses an indeterminate value),
  when the number of objects is negative (no round of the loop is run and the
  assertion of line 76 fails), when a round of the loop has no defined result, and
  when the input is not modelled.
\<close>

definition config_read ::
  "(real \<Rightarrow> 'r) \<Rightarrow> (int \<Rightarrow> 'r \<Rightarrow> 'r \<Rightarrow> 'r \<Rightarrow> 'r object) \<Rightarrow> string \<Rightarrow> ('r::zero, 't) config option" where
  "config_read conv mk src =
     (case scan_lf src of
        Converted xs s1 \<Rightarrow>
          (case scan_lf s1 of
             Converted ys s2 \<Rightarrow>
               (case scan_d (skip_space s2) of
                  Converted n_obj s3 \<Rightarrow>
                    (if n_obj < 0 then None
                     else (case read_objects conv mk (nat n_obj) (None, None, None, None)
                                  (skip_space s3) of
                             Some objs \<Rightarrow>
                               Some \<lparr>x_size = conv xs, y_size = conv ys, unchanged = False,
                                     saved_energy = 0, obj_list = objs, the_topology = None,
                                     is_periodic = True\<rparr>
                           | None \<Rightarrow> None))
                | _ \<Rightarrow> None)
           | _ \<Rightarrow> None)
      | _ \<Rightarrow> None)"

section \<open>The driver's overlap relief\<close>

text \<open>
  The variables of \<^verbatim>\<open>main\<close> (\<^verbatim>\<open>NVT.cpp\<close>) that the loop of lines 207-222 reads and
  writes.  \<open>i_count\<close> is the counter \<^verbatim>\<open>i\<close>; \<open>the_integrator\<close> says whether the pointer
  of that name is non-null; \<open>generator\<close> is the state of the process-wide random
  generator.  \<^verbatim>\<open>i\<close> and \<^verbatim>\<open>N1\<close> are C \<^verbatim>\<open>int\<close>s, modelled by integers: the loop leaves
  their range only when \<open>2002 * N1\<close> does.
\<close>

record ('r, 't, 'g) driver =
  current_state :: "('r, 't) config"
  dl_max :: 'r
  i_count :: int
  U1 :: 'r
  the_integrator :: bool
  generator :: 'g







section \<open>Configurations used as examples\<close>

text \<open>
  Two objects of type 0 in a periodic box of 10 by 10, both flagged, the cached state
  stale: at \<open>x = 9.9\<close> and at \<open>x = 0.1\<close> (the doubles nearest to these), both at
  \<open>y = 5\<close>.
\<close>

definition near_edges :: "(dbl, 't) config" where
  "near_edges =
     \<lparr>x_size = Dbl 10, y_size = Dbl 10, unchanged = False, saved_energy = Dbl 0,
      obj_list = [new_object (Dbl 0) True 0 (Dbl (binary64 (99 / 10))) (Dbl 5) (Dbl 0),
                  new_object (Dbl 0) True 0 (Dbl (binary64 (1 / 10))) (Dbl 5) (Dbl 0)],
      the_topology = None, is_periodic = True\<rparr>"


text \<open>
  A configuration whose flag \<open>unchanged\<close> is set although its one object is flagged and
  the saved energy is not the sum of the cached energies: what the copy constructor
  makes of a configuration with \<open>unchanged = true\<close> and \<open>saved_energy = 5\<close>.
\<close>

definition stale_copy :: "(real, 't) config" where
  "stale_copy =
     \<lparr>x_size = 10, y_size = 10, unchanged = True, saved_energy = 5,
      obj_list = [new_object 0 True 0 5 5 0],
      the_topology = None, is_periodic = True\<rparr>"

text \<open>The empty configuration of the spec's round trip: \<open>Lx = 10\<close>, \<open>Ly = 10\<close>, \<open>N = 0\<close>.\<close>

definition empty_ten :: "(dbl, 't) config" where
  "empty_ten =
     \<lparr>x_size = Dbl 10, y_size = Dbl 10, unchanged = False, saved_energy = Dbl 0,
      obj_list = [], the_topology = None, is_periodic = True\<rparr>"

text \<open>
  One object, not flagged, and two objects at distance 5 under walls, for
  \<^verbatim>\<open>invalidate_within\<close>.
\<close>

definition one_object :: "(real, 't) config" where
  "one_object =
     \<lparr>x_size = 10, y_size = 10, unchanged = True, saved_energy = 0,
      obj_list = [new_object 0 False 0 5 5 0],
      the_topology = None, is_periodic = True\<rparr>"

definition five_apart :: "(real, 't) config" where
  "five_apart =
     \<lparr>x_size = 10, y_size = 10, unchanged = True, saved_energy = 0,
      obj_list = [new_object 0 False 0 1 1 0, new_object 0 False 0 4 5 0],
      the_topology = None, is_periodic = False\<rparr>"



text \<open>
  Two objects that have been moved since the energy was computed: both are flagged
  and carry the cached energy 3, \<open>saved_energy\<close> is 6 and \<open>unchanged\<close> is still set.
\<close>

definition moved_pair :: "(real, 't) config" where
  "moved_pair =
     \<lparr>x_size = 10, y_size = 10, unchanged = True, saved_energy = 6,
      obj_list = [new_object 3 True 0 2 5 0, new_object 3 True 0 9 5 0],
      the_topology = None, is_periodic = True\<rparr>"


section \<open>Lemmas\<close>

subsection \<open>The energy in exact arithmetic\<close>


lemma unshifted_shifted:
  fixes ob :: "('r::group_add) object"
  shows "unshifted dx dy (shifted dx dy ob) = ob"
  by (simp add: unshifted_def shifted_def)

lemma energy_pair_exact:
  fixes c :: "('r::linordered_field, 't) config"
  assumes "i1 \<noteq> i2"
  shows "energy_pair interaction the_force i1 i2 (c, v) =
           (c, v + interaction the_force (the_topology c) (obj_list c ! i1)
                     (closest_image c (obj_list c ! i1) (obj_list c ! i2)))"
  using assms
  by (simp add: energy_pair_def closest_image_def Let_def unshifted_shifted)

lemma energy_pair_same:
  "energy_pair interaction the_force i1 i1 (c, v) = (c, v)"
  by (simp add: energy_pair_def)

lemma energy_inner_exact:
  fixes c :: "('r::linordered_field, 't) config"
  shows "fold (energy_pair interaction the_force i1) js (c, v) =
           (c, v + (\<Sum>j \<leftarrow> filter (\<lambda>j. j \<noteq> i1) js.
                      interaction the_force (the_topology c) (obj_list c ! i1)
                        (closest_image c (obj_list c ! i1) (obj_list c ! j))))"
proof (induction js arbitrary: v)
  case Nil
  show ?case by simp
next
  case (Cons j js)
  show ?case
  proof (cases "j = i1")
    case True
    then show ?thesis using Cons.IH by (simp add: energy_pair_same)
  next
    case False
    then have "i1 \<noteq> j" by simp
    then show ?thesis using Cons.IH by (simp add: energy_pair_exact add.assoc)
  qed
qed

lemma energy_object_exact:
  fixes c :: "('r::linordered_field, 't) config"
  shows "energy_object interaction box_energy the_force i1 c =
     (let ob = (if recalculate (obj_list c ! i1)
                then set_energy (spec_object_energy interaction box_energy the_force c i1) (obj_list c ! i1)
                else obj_list c ! i1)
      in c\<lparr>obj_list := (obj_list c)[i1 := ob],
           saved_energy := saved_energy c + cached_energy ((obj_list c)[i1 := ob] ! i1)\<rparr>)"
  by (simp add: energy_object_def energy_inner_exact spec_object_energy_def Let_def get_energy_def)

lemma closest_image_energy_fields:
  "closest_image c a (b\<lparr>cached_energy := e, recalculate := r\<rparr>)
     = (closest_image c a b)\<lparr>cached_energy := e, recalculate := r\<rparr>"
  by (simp add: closest_image_def shifted_def)

lemma self_energy_fields:
  "\<exists>e r. (ob :: 'r object) = ob\<lparr>cached_energy := e, recalculate := r\<rparr>"
proof -
  have "ob = ob\<lparr>cached_energy := cached_energy ob, recalculate := recalculate ob\<rparr>" by simp
  then show ?thesis by blast
qed

lemma refreshed_energy_fields:
  "\<exists>e r. refreshed interaction box_energy the_force c i
      = (obj_list c ! i)\<lparr>cached_energy := e, recalculate := r\<rparr>"
proof (cases "recalculate (obj_list c ! i)")
  case True
  then show ?thesis by (auto simp: refreshed_def set_energy_def)
next
  case False
  then show ?thesis using self_energy_fields [of "obj_list c ! i"] by (simp add: refreshed_def)
qed

lemma spec_object_energy_cong:
  fixes c :: "('r::linordered_field, 't) config"
  assumes geo: "reads_placement_only interaction the_force (the_topology c)"
    and len: "length objs = length (obj_list c)"
    and same: "objs ! i = obj_list c ! i"
    and flds: "\<And>j. j < length (obj_list c) \<Longrightarrow>
                 \<exists>e r. objs ! j = (obj_list c ! j)\<lparr>cached_energy := e, recalculate := r\<rparr>"
  shows "spec_object_energy interaction box_energy the_force (c\<lparr>obj_list := objs, saved_energy := s\<rparr>) i
       = spec_object_energy interaction box_energy the_force c i"
proof -
  have ci: "\<And>a b. closest_image (c\<lparr>obj_list := objs, saved_energy := s\<rparr>) a b = closest_image c a b"
    by (simp add: closest_image_def)
  have tm: "interaction the_force (the_topology c) (obj_list c ! i)
                (closest_image c (obj_list c ! i) (objs ! j))
            = interaction the_force (the_topology c) (obj_list c ! i)
                (closest_image c (obj_list c ! i) (obj_list c ! j))"
    if "j < length (obj_list c)" for j
  proof -
    from flds [OF that] obtain e r
      where "objs ! j = (obj_list c ! j)\<lparr>cached_energy := e, recalculate := r\<rparr>" by blast
    then show ?thesis
      using geo by (simp add: closest_image_energy_fields reads_placement_only_def)
  qed
  have "(\<Sum>j \<leftarrow> filter (\<lambda>j. j \<noteq> i) [0..<length (obj_list c)].
            interaction the_force (the_topology c) (obj_list c ! i)
              (closest_image c (obj_list c ! i) (objs ! j)))
      = (\<Sum>j \<leftarrow> filter (\<lambda>j. j \<noteq> i) [0..<length (obj_list c)].
            interaction the_force (the_topology c) (obj_list c ! i)
              (closest_image c (obj_list c ! i) (obj_list c ! j)))"
    by (rule arg_cong [where f = sum_list], rule map_cong [OF refl]) (simp add: tm)
  then show ?thesis
    by (simp add: spec_object_energy_def ci len same)
qed

lemma energy_outer_exact:
  fixes c :: "('r::linordered_field, 't) config"
  assumes geo: "reads_placement_only interaction the_force (the_topology c)"
    and k: "k \<le> length (obj_list c)"
  shows "fold (energy_object interaction box_energy the_force) [0..<k] c =
           c\<lparr>obj_list := map (\<lambda>i. if i < k then refreshed interaction box_energy the_force c i
                                 else obj_list c ! i) [0..<length (obj_list c)],
             saved_energy := saved_energy c
                + (\<Sum>i \<leftarrow> [0..<k]. cached_energy (refreshed interaction box_energy the_force c i))\<rparr>"
  using k
proof (induction k)
  case 0
  show ?case by (simp add: map_nth)
next
  case (Suc k)
  let ?R = "refreshed interaction box_energy the_force c"
  let ?objs = "map (\<lambda>i. if i < k then ?R i else obj_list c ! i) [0..<length (obj_list c)]"
  let ?s = "saved_energy c + (\<Sum>i \<leftarrow> [0..<k]. cached_energy (?R i))"
  let ?ck = "c\<lparr>obj_list := ?objs, saved_energy := ?s\<rparr>"
  from Suc.prems have kl: "k < length (obj_list c)" by simp
  have ih: "fold (energy_object interaction box_energy the_force) [0..<k] c = ?ck"
    using Suc.IH kl by simp
  have nk: "?objs ! k = obj_list c ! k" using kl by simp
  have E: "spec_object_energy interaction box_energy the_force ?ck k
         = spec_object_energy interaction box_energy the_force c k"
  proof (rule spec_object_energy_cong [OF geo _ nk])
    show "length ?objs = length (obj_list c)" by simp
  next
    fix j assume j: "j < length (obj_list c)"
    show "\<exists>e r. ?objs ! j = (obj_list c ! j)\<lparr>cached_energy := e, recalculate := r\<rparr>"
    proof (cases "j < k")
      case True
      then show ?thesis using j refreshed_energy_fields [of interaction box_energy the_force c j]
        by simp
    next
      case False
      then have "?objs ! j = obj_list c ! j" using j by simp
      then show ?thesis using self_energy_fields [of "obj_list c ! j"] by simp
    qed
  qed
  have Rk: "refreshed interaction box_energy the_force ?ck k = ?R k"
    using nk E by (simp add: refreshed_def del: nth_map)
  have upd: "?objs[k := ?R k]
           = map (\<lambda>i. if i < Suc k then ?R i else obj_list c ! i) [0..<length (obj_list c)]"
    using kl by (intro nth_equalityI) (auto simp: nth_list_update less_Suc_eq)
  have "fold (energy_object interaction box_energy the_force) [0..<Suc k] c
      = energy_object interaction box_energy the_force k ?ck"
    using ih by simp
  also have "\<dots> = ?ck\<lparr>obj_list := ?objs[k := ?R k],
                      saved_energy := ?s + cached_energy (?objs[k := ?R k] ! k)\<rparr>"
    using Rk by (simp add: energy_object_exact refreshed_def Let_def del: nth_map)
  also have "\<dots> = c\<lparr>obj_list := map (\<lambda>i. if i < Suc k then ?R i else obj_list c ! i)
                                    [0..<length (obj_list c)],
                      saved_energy := saved_energy c + (\<Sum>i \<leftarrow> [0..<Suc k]. cached_energy (?R i))\<rparr>"
    using kl by (simp add: upd add.assoc)
  finally show ?case .
qed

subsection \<open>Invalidation\<close>

lemma invalidate_step_frame:
  "invalidate_step dst d k i c = c\<lparr>obj_list := obj_list (invalidate_step dst d k i c)\<rparr>"
  by (simp add: invalidate_step_def Let_def)

lemma invalidate_step_length:
  "length (obj_list (invalidate_step dst d k i c)) = length (obj_list c)"
  by (simp add: invalidate_step_def Let_def)

lemma invalidate_fold:
  "distinct js \<Longrightarrow> k < length (obj_list c) \<Longrightarrow>
   fold (invalidate_step dst d k) js c =
     c\<lparr>obj_list := map (\<lambda>i. if i \<in> set js \<and> i \<noteq> k \<and>
                 dst (obj_list c ! k) (obj_list c ! i) (x_size c) (y_size c) (is_periodic c) < d
               then (obj_list c ! i)\<lparr>recalculate := True\<rparr> else obj_list c ! i)
            [0..<length (obj_list c)]\<rparr>"
proof (induction js arbitrary: c)
  case Nil
  then show ?case by (simp add: map_nth)
next
  case (Cons j js)
  let ?c1 = "invalidate_step dst d k j c"
  have len: "length (obj_list ?c1) = length (obj_list c)" by (rule invalidate_step_length)
  have k1: "obj_list ?c1 ! k = obj_list c ! k"
    by (simp add: invalidate_step_def Let_def)
  have other: "\<And>i. i \<noteq> j \<Longrightarrow> obj_list ?c1 ! i = obj_list c ! i"
    by (simp add: invalidate_step_def Let_def)
  have flds: "x_size ?c1 = x_size c" "y_size ?c1 = y_size c" "is_periodic ?c1 = is_periodic c"
    by (simp_all add: invalidate_step_def Let_def)
  have "fold (invalidate_step dst d k) (j # js) c = fold (invalidate_step dst d k) js ?c1" by simp
  also have "\<dots> = ?c1\<lparr>obj_list := map (\<lambda>i. if i \<in> set js \<and> i \<noteq> k \<and>
                 dst (obj_list ?c1 ! k) (obj_list ?c1 ! i) (x_size ?c1) (y_size ?c1) (is_periodic ?c1) < d
               then (obj_list ?c1 ! i)\<lparr>recalculate := True\<rparr> else obj_list ?c1 ! i)
            [0..<length (obj_list ?c1)]\<rparr>"
    using Cons.prems by (intro Cons.IH) (simp_all add: len)
  also have "\<dots> = c\<lparr>obj_list := map (\<lambda>i. if i \<in> set (j # js) \<and> i \<noteq> k \<and>
                 dst (obj_list c ! k) (obj_list c ! i) (x_size c) (y_size c) (is_periodic c) < d
               then (obj_list c ! i)\<lparr>recalculate := True\<rparr> else obj_list c ! i)
            [0..<length (obj_list c)]\<rparr>"
  proof -
    have "map (\<lambda>i. if i \<in> set js \<and> i \<noteq> k \<and>
                 dst (obj_list ?c1 ! k) (obj_list ?c1 ! i) (x_size ?c1) (y_size ?c1) (is_periodic ?c1) < d
               then (obj_list ?c1 ! i)\<lparr>recalculate := True\<rparr> else obj_list ?c1 ! i)
            [0..<length (obj_list ?c1)]
       = map (\<lambda>i. if i \<in> set (j # js) \<and> i \<noteq> k \<and>
                 dst (obj_list c ! k) (obj_list c ! i) (x_size c) (y_size c) (is_periodic c) < d
               then (obj_list c ! i)\<lparr>recalculate := True\<rparr> else obj_list c ! i)
            [0..<length (obj_list c)]"
      unfolding len flds k1
    proof (rule map_cong[OF refl])
      fix i assume "i \<in> set [0..<length (obj_list c)]"
      then have il: "i < length (obj_list c)" by simp
      show "(if i \<in> set js \<and> i \<noteq> k \<and> dst (obj_list c ! k) (obj_list ?c1 ! i) (x_size c) (y_size c) (is_periodic c) < d
               then (obj_list ?c1 ! i)\<lparr>recalculate := True\<rparr> else obj_list ?c1 ! i)
          = (if i \<in> set (j # js) \<and> i \<noteq> k \<and>
                 dst (obj_list c ! k) (obj_list c ! i) (x_size c) (y_size c) (is_periodic c) < d
               then (obj_list c ! i)\<lparr>recalculate := True\<rparr> else obj_list c ! i)"
      proof (cases "i = j")
        case True
        then have "i \<notin> set js" using Cons.prems by simp
        then show ?thesis using True il
          by (simp add: invalidate_step_def Let_def)
      next
        case False
        then show ?thesis by (simp add: other)
      qed
    qed
    then show ?thesis
      by (subst invalidate_step_frame) simp
  qed
  finally show ?case .
qed


text \<open>
  In exact arithmetic \<^verbatim>\<open>config::energy\<close> leaves the type, centre and orientation of
  every object, the box, the periodic flag and the topology as they are.
\<close>

lemma energy_object_frame:
  fixes c :: "('r::linordered_field, 't) config"
  shows "map placement (obj_list (energy_object interaction box_energy the_force i1 c))
           = map placement (obj_list c)
       \<and> x_size (energy_object interaction box_energy the_force i1 c) = x_size c
       \<and> y_size (energy_object interaction box_energy the_force i1 c) = y_size c
       \<and> is_periodic (energy_object interaction box_energy the_force i1 c) = is_periodic c
       \<and> the_topology (energy_object interaction box_energy the_force i1 c) = the_topology c"
proof (cases "i1 < length (obj_list c)")
  case True
  then show ?thesis
    by (simp add: energy_object_exact Let_def map_update placement_def set_energy_def
        list_update_same_conv)
next
  case False
  then have "(obj_list c)[i1 := ob] = obj_list c" for ob
    by (intro list_update_beyond) simp
  then show ?thesis by (simp add: energy_object_exact Let_def)
qed

lemma energy_fold_frame:
  fixes c :: "('r::linordered_field, 't) config"
  shows "map placement (obj_list (fold (energy_object interaction box_energy the_force) js c))
           = map placement (obj_list c)
       \<and> x_size (fold (energy_object interaction box_energy the_force) js c) = x_size c
       \<and> y_size (fold (energy_object interaction box_energy the_force) js c) = y_size c
       \<and> is_periodic (fold (energy_object interaction box_energy the_force) js c) = is_periodic c
       \<and> the_topology (fold (energy_object interaction box_energy the_force) js c) = the_topology c"
proof (induction js arbitrary: c)
  case Nil
  show ?case by simp
next
  case (Cons j js)
  show ?case
    using Cons.IH [of "energy_object interaction box_energy the_force j c"]
      energy_object_frame [of interaction box_energy the_force j c]
    by simp
qed

lemma energy_frame_exact:
  fixes c :: "('r::linordered_field, 't) config"
  shows "map placement (obj_list (snd (config_energy interaction box_energy the_force c)))
           = map placement (obj_list c)
       \<and> x_size (snd (config_energy interaction box_energy the_force c)) = x_size c
       \<and> y_size (snd (config_energy interaction box_energy the_force c)) = y_size c
       \<and> is_periodic (snd (config_energy interaction box_energy the_force c)) = is_periodic c
       \<and> the_topology (snd (config_energy interaction box_energy the_force c)) = the_topology c"
  using energy_fold_frame [of interaction box_energy the_force "[0..<length (obj_list c)]"
      "c\<lparr>saved_energy := 0\<rparr>"]
  by (simp add: config_energy_def Let_def)

text \<open>
  For every arithmetic \<^verbatim>\<open>config::energy\<close> leaves the type and the orientation of every
  object, the box, the periodic flag and the topology as they are: only the centres
  are at the mercy of the rounding.
\<close>

lemma map_update_same:
  "f y = f (xs ! i) \<Longrightarrow> map f (xs[i := y]) = map f xs"
proof (cases "i < length xs")
  case True
  assume "f y = f (xs ! i)"
  with True show ?thesis by (simp add: map_update list_update_same_conv)
next
  case False
  then have "xs[i := y] = xs" by (intro list_update_beyond) simp
  then show ?thesis by simp
qed

lemma energy_pair_rigid:
  "map rigid_part (obj_list (fst (energy_pair interaction the_force i1 i2 (c, v))))
     = map rigid_part (obj_list c)
   \<and> x_size (fst (energy_pair interaction the_force i1 i2 (c, v))) = x_size c
   \<and> y_size (fst (energy_pair interaction the_force i1 i2 (c, v))) = y_size c
   \<and> is_periodic (fst (energy_pair interaction the_force i1 i2 (c, v))) = is_periodic c
   \<and> the_topology (fst (energy_pair interaction the_force i1 i2 (c, v))) = the_topology c"
  by (simp add: energy_pair_def Let_def map_update_same rigid_part_def shifted_def unshifted_def)

lemma energy_inner_rigid:
  "map rigid_part (obj_list (fst (fold (energy_pair interaction the_force i1) js s)))
     = map rigid_part (obj_list (fst s))
   \<and> x_size (fst (fold (energy_pair interaction the_force i1) js s)) = x_size (fst s)
   \<and> y_size (fst (fold (energy_pair interaction the_force i1) js s)) = y_size (fst s)
   \<and> is_periodic (fst (fold (energy_pair interaction the_force i1) js s)) = is_periodic (fst s)
   \<and> the_topology (fst (fold (energy_pair interaction the_force i1) js s)) = the_topology (fst s)"
proof (induction js arbitrary: s)
  case Nil
  show ?case by simp
next
  case (Cons j js)
  obtain c v where s: "s = (c, v)" by (cases s)
  show ?case
    using Cons.IH [of "energy_pair interaction the_force i1 j s"]
      energy_pair_rigid [of interaction the_force i1 j c v]
    by (simp add: s)
qed

lemma energy_object_rigid:
  "map rigid_part (obj_list (energy_object interaction box_energy the_force i1 c))
     = map rigid_part (obj_list c)
   \<and> x_size (energy_object interaction box_energy the_force i1 c) = x_size c
   \<and> y_size (energy_object interaction box_energy the_force i1 c) = y_size c
   \<and> is_periodic (energy_object interaction box_energy the_force i1 c) = is_periodic c
   \<and> the_topology (energy_object interaction box_energy the_force i1 c) = the_topology c"
proof -
  obtain c' v where f: "fold (energy_pair interaction the_force i1) [0..<length (obj_list c)] (c, 0)
                          = (c', v)"
    by (cases "fold (energy_pair interaction the_force i1) [0..<length (obj_list c)] (c, 0)")
  have "rigid_part (set_energy e (obj_list c' ! i1)) = rigid_part (obj_list c' ! i1)" for e
    by (simp add: rigid_part_def set_energy_def)
  then have "map rigid_part ((obj_list c')[i1 := set_energy e (obj_list c' ! i1)])
               = map rigid_part (obj_list c')" for e
    by (rule map_update_same)
  then show ?thesis
    using energy_inner_rigid [of interaction the_force i1 "[0..<length (obj_list c)]" "(c, 0)"]
    by (simp add: energy_object_def f Let_def)
qed

lemma energy_outer_rigid:
  "map rigid_part (obj_list (fold (energy_object interaction box_energy the_force) js c))
     = map rigid_part (obj_list c)
   \<and> x_size (fold (energy_object interaction box_energy the_force) js c) = x_size c
   \<and> y_size (fold (energy_object interaction box_energy the_force) js c) = y_size c
   \<and> is_periodic (fold (energy_object interaction box_energy the_force) js c) = is_periodic c
   \<and> the_topology (fold (energy_object interaction box_energy the_force) js c) = the_topology c"
proof (induction js arbitrary: c)
  case Nil
  show ?case by simp
next
  case (Cons j js)
  show ?case
    using Cons.IH [of "energy_object interaction box_energy the_force j c"]
      energy_object_rigid [of interaction box_energy the_force j c]
    by simp
qed

lemma energy_frame_rounded:
  "map rigid_part (obj_list (snd (config_energy interaction box_energy the_force c)))
     = map rigid_part (obj_list c)
   \<and> x_size (snd (config_energy interaction box_energy the_force c)) = x_size c
   \<and> y_size (snd (config_energy interaction box_energy the_force c)) = y_size c
   \<and> is_periodic (snd (config_energy interaction box_energy the_force c)) = is_periodic c
   \<and> the_topology (snd (config_energy interaction box_energy the_force c)) = the_topology c"
  using energy_outer_rigid [of interaction box_energy the_force "[0..<length (obj_list c)]"
      "c\<lparr>saved_energy := 0\<rparr>"]
  by (simp add: config_energy_def Let_def)

lemma up2: "[0..<2] = [0, 1]"
  by (simp add: upt_rec)


text \<open>
  In exact arithmetic, for an interaction that does not read the partner's cached
  energy or flag, the passes do not depend on one another: every object flagged is
  refreshed from the configuration given, and every other object is left as it is.
\<close>

lemma energy_exact:
  fixes c :: "('r::linordered_field, 't) config"
  assumes geo: "reads_placement_only interaction the_force (the_topology c)"
  shows "config_energy interaction box_energy the_force c =
     (if unchanged c then (saved_energy c / 2, c)
      else (let objs = map (refreshed interaction box_energy the_force c) [0..<n_objects c];
                total = sum_list (map get_energy objs)
            in (total / 2, c\<lparr>obj_list := objs, saved_energy := total, unchanged := True\<rparr>)))"
proof (cases "unchanged c")
  case True
  then show ?thesis by (simp add: config_energy_def)
next
  case False
  let ?c0 = "c\<lparr>saved_energy := 0\<rparr>"
  have geo0: "reads_placement_only interaction the_force (the_topology ?c0)" using geo by simp
  have R: "refreshed interaction box_energy the_force ?c0 i
         = refreshed interaction box_energy the_force c i" for i
    by (simp add: refreshed_def spec_object_energy_def closest_image_def)
  have "fold (energy_object interaction box_energy the_force) [0..<length (obj_list ?c0)] ?c0
      = ?c0\<lparr>obj_list := map (\<lambda>i. if i < length (obj_list ?c0)
                                      then refreshed interaction box_energy the_force ?c0 i
                                      else obj_list ?c0 ! i) [0..<length (obj_list ?c0)],
             saved_energy := saved_energy ?c0
                + (\<Sum>i \<leftarrow> [0..<length (obj_list ?c0)].
                     cached_energy (refreshed interaction box_energy the_force ?c0 i))\<rparr>"
    by (rule energy_outer_exact [OF geo0]) simp
  moreover have "map (\<lambda>i. if i < length (obj_list c)
                                then refreshed interaction box_energy the_force c i
                                else obj_list c ! i) [0..<length (obj_list c)]
               = map (refreshed interaction box_energy the_force c) [0..<length (obj_list c)]"
    by (rule map_cong [OF refl]) simp
  ultimately show ?thesis using False
    by (simp add: config_energy_def R n_objects_def Let_def get_energy_def o_def)
qed

subsection \<open>The passes of the energy in any arithmetic\<close>

lemma energy_pair_step:
  assumes "i1 \<noteq> i2"
  shows "energy_pair interaction the_force i1 i2 (c, v) =
           (c\<lparr>obj_list := (obj_list c)[i2 := moved_back c (obj_list c ! i1) (obj_list c ! i2)]\<rparr>,
            v + interaction the_force (the_topology c) (obj_list c ! i1)
                  (closest_image c (obj_list c ! i1) (obj_list c ! i2)))"
  using assms
  by (simp add: energy_pair_def closest_image_def moved_back_def Let_def)

lemma energy_pair_self:
  "energy_pair interaction the_force i1 i1 (c, v) = (c, v)"
  by (simp add: energy_pair_def)

lemma image_of_update:
  "moved_back (c\<lparr>obj_list := xs\<rparr>) = moved_back c"
  "closest_image (c\<lparr>obj_list := xs\<rparr>) = closest_image c"
  "moved_back (c\<lparr>saved_energy := e\<rparr>) = moved_back c"
  "closest_image (c\<lparr>saved_energy := e\<rparr>) = closest_image c"
  by (simp_all add: moved_back_def closest_image_def fun_eq_iff)

lemma energy_inner_any:
  assumes "distinct js" and "i1 < length (obj_list c)"
  shows "fold (energy_pair interaction the_force i1) js (c, v) =
           (c\<lparr>obj_list := map (\<lambda>j. if j \<in> set js \<and> j \<noteq> i1
                                    then moved_back c (obj_list c ! i1) (obj_list c ! j)
                                    else obj_list c ! j) [0..<length (obj_list c)]\<rparr>,
            foldl (+) v
              (map (\<lambda>j. interaction the_force (the_topology c) (obj_list c ! i1)
                          (closest_image c (obj_list c ! i1) (obj_list c ! j)))
                   (filter (\<lambda>j. j \<noteq> i1) js)))"
  using assms
proof (induction js arbitrary: c v)
  case Nil
  show ?case by (simp add: map_nth)
next
  case (Cons j js)
  show ?case
  proof (cases "j = i1")
    case True
    have "map (\<lambda>k. if k \<in> set js \<and> k \<noteq> i1 then moved_back c (obj_list c ! i1) (obj_list c ! k)
                    else obj_list c ! k) [0..<length (obj_list c)]
        = map (\<lambda>k. if k \<in> set (j # js) \<and> k \<noteq> i1 then moved_back c (obj_list c ! i1) (obj_list c ! k)
                    else obj_list c ! k) [0..<length (obj_list c)]"
      using True by (intro map_cong [OF refl]) auto
    then show ?thesis
      using Cons.IH [of c v] Cons.prems True by (simp add: energy_pair_self)
  next
    case False
    define ob where "ob = moved_back c (obj_list c ! i1) (obj_list c ! j)"
    define c1 where "c1 = c\<lparr>obj_list := (obj_list c)[j := ob]\<rparr>"
    define v1 where "v1 = v + interaction the_force (the_topology c) (obj_list c ! i1)
                  (closest_image c (obj_list c ! i1) (obj_list c ! j))"
    have step: "energy_pair interaction the_force i1 j (c, v) = (c1, v1)"
      unfolding c1_def v1_def ob_def using False by (intro energy_pair_step) simp
    have jn: "j \<notin> set js" using Cons.prems by simp
    have c1: "obj_list c1 = (obj_list c)[j := ob]" "the_topology c1 = the_topology c"
      "moved_back c1 = moved_back c" "closest_image c1 = closest_image c"
      "c1\<lparr>obj_list := xs\<rparr> = c\<lparr>obj_list := xs\<rparr>" for xs
      by (simp_all add: c1_def image_of_update)
    have i1: "obj_list c1 ! i1 = obj_list c ! i1" using False by (simp add: c1)
    have oth: "obj_list c1 ! k = obj_list c ! k" if "k \<noteq> j" for k
      using that by (simp add: c1)
    have ih: "fold (energy_pair interaction the_force i1) js (c1, v1) =
           (c1\<lparr>obj_list := map (\<lambda>k. if k \<in> set js \<and> k \<noteq> i1
                                    then moved_back c1 (obj_list c1 ! i1) (obj_list c1 ! k)
                                    else obj_list c1 ! k) [0..<length (obj_list c1)]\<rparr>,
            foldl (+) v1
              (map (\<lambda>k. interaction the_force (the_topology c1) (obj_list c1 ! i1)
                          (closest_image c1 (obj_list c1 ! i1) (obj_list c1 ! k)))
                   (filter (\<lambda>k. k \<noteq> i1) js)))"
      using Cons.prems by (intro Cons.IH) (simp_all add: c1)
    have lst: "map (\<lambda>k. if k \<in> set js \<and> k \<noteq> i1
                                    then moved_back c1 (obj_list c1 ! i1) (obj_list c1 ! k)
                                    else obj_list c1 ! k) [0..<length (obj_list c1)]
             = map (\<lambda>k. if k \<in> set (j # js) \<and> k \<noteq> i1
                                    then moved_back c (obj_list c ! i1) (obj_list c ! k)
                                    else obj_list c ! k) [0..<length (obj_list c)]"
    proof -
      have len: "length (obj_list c1) = length (obj_list c)" by (simp add: c1)
      show ?thesis
        unfolding len c1(3) i1
      proof (rule map_cong [OF refl])
        fix k assume "k \<in> set [0..<length (obj_list c)]"
        then have kl: "k < length (obj_list c)" by simp
        show "(if k \<in> set js \<and> k \<noteq> i1
               then moved_back c (obj_list c ! i1) (obj_list c1 ! k) else obj_list c1 ! k)
            = (if k \<in> set (j # js) \<and> k \<noteq> i1
               then moved_back c (obj_list c ! i1) (obj_list c ! k) else obj_list c ! k)"
        proof (cases "k = j")
          case True
          then show ?thesis using jn kl False by (simp add: c1 ob_def)
        next
          case False
          then show ?thesis by (simp add: oth)
        qed
      qed
    qed
    have vals: "map (\<lambda>k. interaction the_force (the_topology c1) (obj_list c1 ! i1)
                          (closest_image c1 (obj_list c1 ! i1) (obj_list c1 ! k)))
                   (filter (\<lambda>k. k \<noteq> i1) js)
              = map (\<lambda>k. interaction the_force (the_topology c) (obj_list c ! i1)
                          (closest_image c (obj_list c ! i1) (obj_list c ! k)))
                   (filter (\<lambda>k. k \<noteq> i1) js)"
      unfolding c1(2,4) i1
    proof (rule map_cong [OF refl])
      fix k assume "k \<in> set (filter (\<lambda>k. k \<noteq> i1) js)"
      then have "k \<noteq> j" using jn by auto
      then show "interaction the_force (the_topology c) (obj_list c ! i1)
                  (closest_image c (obj_list c ! i1) (obj_list c1 ! k))
               = interaction the_force (the_topology c) (obj_list c ! i1)
                  (closest_image c (obj_list c ! i1) (obj_list c ! k))"
        by (simp add: oth)
    qed
    have "fold (energy_pair interaction the_force i1) (j # js) (c, v)
        = fold (energy_pair interaction the_force i1) js (c1, v1)"
      by (simp add: step)
    also note ih
    finally show ?thesis
      using False unfolding lst vals c1(5) by (simp add: v1_def)
  qed
qed

lemma energy_object_pass:
  assumes "i1 < length (obj_list c)"
  shows "energy_object interaction box_energy the_force i1 c
       = spec_pass interaction box_energy the_force i1 c"
proof (cases "recalculate (obj_list c ! i1)")
  case False
  then show ?thesis by (simp add: energy_object_def spec_pass_def Let_def)
next
  case True
  define n where "n = length (obj_list c)"
  define objs where "objs = map (\<lambda>j. if j \<in> set [0..<n] \<and> j \<noteq> i1
                           then moved_back c (obj_list c ! i1) (obj_list c ! j)
                           else obj_list c ! j) [0..<n]"
  define val where "val = foldl (+) 0
              (map (\<lambda>j. interaction the_force (the_topology c) (obj_list c ! i1)
                          (closest_image c (obj_list c ! i1) (obj_list c ! j)))
                   (filter (\<lambda>j. j \<noteq> i1) [0..<n]))"
  define e where "e = (if is_periodic c then val
       else val + box_energy the_force (the_topology c) (x_size c) (y_size c) (obj_list c ! i1))"
  have inner: "fold (energy_pair interaction the_force i1) [0..<n] (c, 0)
             = (c\<lparr>obj_list := objs\<rparr>, val)"
    unfolding objs_def val_def n_def using assms by (intro energy_inner_any) simp_all
  have at: "objs ! i1 = obj_list c ! i1" using assms by (simp add: objs_def n_def)
  have lobjs: "i1 < length objs" using assms by (simp add: objs_def n_def)
  have upd: "objs[i1 := ob]
           = map (\<lambda>j. if j = i1 then ob else moved_back c (obj_list c ! i1) (obj_list c ! j))
               [0..<length (obj_list c)]" for ob
    using assms by (intro nth_equalityI) (auto simp: nth_list_update objs_def n_def)
  have pe: "pass_energy interaction box_energy the_force c i1 = e"
    by (simp add: pass_energy_def e_def val_def n_def Let_def)
  have lhs: "energy_object interaction box_energy the_force i1 c
      = c\<lparr>obj_list := objs[i1 := set_energy e (obj_list c ! i1)],
           saved_energy := saved_energy c + e\<rparr>"
    using True assms
    by (simp add: energy_object_def n_def [symmetric] inner Let_def at e_def get_energy_def
        set_energy_def lobjs)
  have rhs: "spec_pass interaction box_energy the_force i1 c
      = c\<lparr>obj_list := map (\<lambda>j. if j = i1 then set_energy e (obj_list c ! i1)
                                 else moved_back c (obj_list c ! i1) (obj_list c ! j))
               [0..<length (obj_list c)],
           saved_energy := saved_energy c + e\<rparr>"
    using True by (simp add: spec_pass_def pe)
  show ?thesis unfolding lhs rhs upd ..
qed

lemma spec_pass_frame:
  "length (obj_list (spec_pass interaction box_energy the_force i c)) = length (obj_list c)"
  "x_size (spec_pass interaction box_energy the_force i c) = x_size c"
  "y_size (spec_pass interaction box_energy the_force i c) = y_size c"
  "is_periodic (spec_pass interaction box_energy the_force i c) = is_periodic c"
  "the_topology (spec_pass interaction box_energy the_force i c) = the_topology c"
  "unchanged (spec_pass interaction box_energy the_force i c) = unchanged c"
  by (simp_all add: spec_pass_def)

lemma energy_outer_pass:
  assumes "\<forall>j \<in> set js. j < length (obj_list c)"
  shows "fold (energy_object interaction box_energy the_force) js c
       = fold (spec_pass interaction box_energy the_force) js c"
  using assms
proof (induction js arbitrary: c)
  case Nil
  show ?case by simp
next
  case (Cons j js)
  have "energy_object interaction box_energy the_force j c
      = spec_pass interaction box_energy the_force j c"
    using Cons.prems by (intro energy_object_pass) simp
  moreover have "\<forall>k \<in> set js. k < length (obj_list (spec_pass interaction box_energy the_force j c))"
    using Cons.prems by (simp add: spec_pass_frame)
  ultimately show ?case using Cons.IH by simp
qed

lemma config_energy_passes:
  "config_energy interaction box_energy the_force c =
     (if unchanged c then (saved_energy c / (1 + 1), c)
      else (saved_energy (at_pass interaction box_energy the_force c (n_objects c)) / (1 + 1),
            (at_pass interaction box_energy the_force c (n_objects c))\<lparr>unchanged := True\<rparr>))"
proof -
  have "fold (energy_object interaction box_energy the_force) [0..<length (obj_list c)]
          (c\<lparr>saved_energy := 0\<rparr>)
      = fold (spec_pass interaction box_energy the_force) [0..<length (obj_list c)]
          (c\<lparr>saved_energy := 0\<rparr>)"
    by (intro energy_outer_pass) simp
  then show ?thesis
    by (simp add: config_energy_def at_pass_def n_objects_def Let_def)
qed

text \<open>The energy fields of the objects through the passes.\<close>

lemma moved_back_energy_fields:
  "cached_energy (moved_back c a b) = cached_energy b"
  "recalculate (moved_back c a b) = recalculate b"
  "rigid_part (moved_back c a b) = rigid_part b"
  by (simp_all add: moved_back_def closest_image_def shifted_def unshifted_def rigid_part_def)

lemma spec_pass_other:
  assumes "j < length (obj_list c)" and "j \<noteq> i"
  shows "cached_energy (obj_list (spec_pass interaction box_energy the_force i c) ! j)
           = cached_energy (obj_list c ! j)"
    and "recalculate (obj_list (spec_pass interaction box_energy the_force i c) ! j)
           = recalculate (obj_list c ! j)"
  using assms by (simp_all add: spec_pass_def moved_back_energy_fields)

lemma spec_pass_self:
  assumes "i < length (obj_list c)"
  shows "cached_energy (obj_list (spec_pass interaction box_energy the_force i c) ! i)
           = (if recalculate (obj_list c ! i)
              then pass_energy interaction box_energy the_force c i
              else cached_energy (obj_list c ! i))"
    and "\<not> recalculate (obj_list (spec_pass interaction box_energy the_force i c) ! i)"
    and "saved_energy (spec_pass interaction box_energy the_force i c)
           = saved_energy c
             + cached_energy (obj_list (spec_pass interaction box_energy the_force i c) ! i)"
  using assms by (simp_all add: spec_pass_def set_energy_def get_energy_def)

lemma at_pass_Suc:
  "at_pass interaction box_energy the_force c (Suc k)
     = spec_pass interaction box_energy the_force k (at_pass interaction box_energy the_force c k)"
  by (simp add: at_pass_def)

lemma at_pass_frame:
  "length (obj_list (at_pass interaction box_energy the_force c k)) = length (obj_list c)
   \<and> x_size (at_pass interaction box_energy the_force c k) = x_size c
   \<and> y_size (at_pass interaction box_energy the_force c k) = y_size c
   \<and> is_periodic (at_pass interaction box_energy the_force c k) = is_periodic c
   \<and> the_topology (at_pass interaction box_energy the_force c k) = the_topology c
   \<and> unchanged (at_pass interaction box_energy the_force c k) = unchanged c"
proof (induction k)
  case 0
  show ?case by (simp add: at_pass_def)
next
  case (Suc k)
  then show ?case by (simp add: at_pass_Suc spec_pass_frame)
qed

lemma at_pass_fields:
  assumes "k \<le> length (obj_list c)" and "i < length (obj_list c)"
  shows "(k \<le> i \<longrightarrow>
            cached_energy (obj_list (at_pass interaction box_energy the_force c k) ! i)
              = cached_energy (obj_list c ! i)
          \<and> recalculate (obj_list (at_pass interaction box_energy the_force c k) ! i)
              = recalculate (obj_list c ! i))
       \<and> (i < k \<longrightarrow>
            \<not> recalculate (obj_list (at_pass interaction box_energy the_force c k) ! i)
          \<and> cached_energy (obj_list (at_pass interaction box_energy the_force c k) ! i)
              = (if recalculate (obj_list c ! i)
                 then pass_energy interaction box_energy the_force
                        (at_pass interaction box_energy the_force c i) i
                 else cached_energy (obj_list c ! i)))"
  using assms(1)
proof (induction k)
  case 0
  show ?case by (simp add: at_pass_def)
next
  case (Suc k)
  let ?ck = "at_pass interaction box_energy the_force c k"
  have len: "length (obj_list ?ck) = length (obj_list c)"
    using at_pass_frame [of interaction box_energy the_force c k] by simp
  have ih: "(k \<le> i \<longrightarrow>
            cached_energy (obj_list ?ck ! i) = cached_energy (obj_list c ! i)
          \<and> recalculate (obj_list ?ck ! i) = recalculate (obj_list c ! i))
       \<and> (i < k \<longrightarrow>
            \<not> recalculate (obj_list ?ck ! i)
          \<and> cached_energy (obj_list ?ck ! i)
              = (if recalculate (obj_list c ! i)
                 then pass_energy interaction box_energy the_force
                        (at_pass interaction box_energy the_force c i) i
                 else cached_energy (obj_list c ! i)))"
    using Suc by simp
  show ?case
  proof (cases "i = k")
    case True
    then show ?thesis
      using ih assms(2) len
        spec_pass_self [of k ?ck interaction box_energy the_force]
      by (simp add: at_pass_Suc)
  next
    case False
    then show ?thesis
      using ih assms(2) len
        spec_pass_other [of i ?ck k interaction box_energy the_force]
      by (auto simp: at_pass_Suc)
  qed
qed

lemma at_pass_saved:
  assumes "k \<le> length (obj_list c)"
  shows "saved_energy (at_pass interaction box_energy the_force c k)
       = foldl (+) 0 (map cached_energy
           (take k (obj_list (at_pass interaction box_energy the_force c k))))"
  using assms
proof (induction k)
  case 0
  show ?case by (simp add: at_pass_def)
next
  case (Suc k)
  let ?ck = "at_pass interaction box_energy the_force c k"
  let ?cs = "at_pass interaction box_energy the_force c (Suc k)"
  have len: "length (obj_list ?ck) = length (obj_list c)" "length (obj_list ?cs) = length (obj_list c)"
    using at_pass_frame [of interaction box_energy the_force c k]
      at_pass_frame [of interaction box_energy the_force c "Suc k"] by simp_all
  have kl: "k < length (obj_list c)" using Suc.prems by simp
  have same: "map cached_energy (take k (obj_list ?cs)) = map cached_energy (take k (obj_list ?ck))"
  proof (intro nth_equalityI)
    show "length (map cached_energy (take k (obj_list ?cs)))
        = length (map cached_energy (take k (obj_list ?ck)))"
      by (simp add: len)
  next
    fix i assume "i < length (map cached_energy (take k (obj_list ?cs)))"
    then have ik: "i < k" by simp
    then show "map cached_energy (take k (obj_list ?cs)) ! i
             = map cached_energy (take k (obj_list ?ck)) ! i"
      using kl len spec_pass_other(1) [of i ?ck k interaction box_energy the_force]
      by (simp add: at_pass_Suc)
  qed
  have "take (Suc k) (obj_list ?cs) = take k (obj_list ?cs) @ [obj_list ?cs ! k]"
    using kl len by (simp add: take_Suc_conv_app_nth)
  then have "foldl (+) 0 (map cached_energy (take (Suc k) (obj_list ?cs)))
           = foldl (+) 0 (map cached_energy (take k (obj_list ?ck))) + cached_energy (obj_list ?cs ! k)"
    by (simp add: same)
  also have "\<dots> = saved_energy ?ck + cached_energy (obj_list ?cs ! k)"
    using Suc kl by simp
  also have "\<dots> = saved_energy ?cs"
    using spec_pass_self(3) [of k ?ck interaction box_energy the_force] kl len
    by (simp add: at_pass_Suc)
  finally show ?case by simp
qed

lemma spec_pass_rigid:
  "map rigid_part (obj_list (spec_pass interaction box_energy the_force i c))
     = map rigid_part (obj_list c)"
proof (cases "recalculate (obj_list c ! i)")
  case True
  have "rigid_part (if j = i
                    then set_energy (pass_energy interaction box_energy the_force c i) (obj_list c ! i)
                    else moved_back c (obj_list c ! i) (obj_list c ! j))
      = rigid_part (obj_list c ! j)" for j
    by (simp add: moved_back_energy_fields) (simp add: rigid_part_def set_energy_def)
  then have "map rigid_part (obj_list (spec_pass interaction box_energy the_force i c))
           = map (\<lambda>j. rigid_part (obj_list c ! j)) [0..<length (obj_list c)]"
    using True by (simp add: spec_pass_def o_def)
  also have "\<dots> = map rigid_part (obj_list c)"
    by (intro nth_equalityI) simp_all
  finally show ?thesis .
next
  case False
  then show ?thesis by (simp add: spec_pass_def)
qed

lemma spec_pass_placement:
  assumes "\<not> is_periodic c"
  shows "map placement (obj_list (spec_pass interaction box_energy the_force i c))
       = map placement (obj_list c)"
proof (cases "recalculate (obj_list c ! i)")
  case True
  have "placement (if j = i
                    then set_energy (pass_energy interaction box_energy the_force c i) (obj_list c ! i)
                    else moved_back c (obj_list c ! i) (obj_list c ! j))
      = placement (obj_list c ! j)" for j
    using assms by (simp add: moved_back_def placement_def set_energy_def)
  then have "map placement (obj_list (spec_pass interaction box_energy the_force i c))
           = map (\<lambda>j. placement (obj_list c ! j)) [0..<length (obj_list c)]"
    using True by (simp add: spec_pass_def o_def)
  also have "\<dots> = map placement (obj_list c)"
    by (intro nth_equalityI) simp_all
  finally show ?thesis .
next
  case False
  then show ?thesis by (simp add: spec_pass_def)
qed

lemma at_pass_rigid:
  "map rigid_part (obj_list (at_pass interaction box_energy the_force c k))
     = map rigid_part (obj_list c)"
proof (induction k)
  case 0
  show ?case by (simp add: at_pass_def)
next
  case (Suc k)
  then show ?case by (simp add: at_pass_Suc spec_pass_rigid)
qed

lemma at_pass_placement:
  assumes "\<not> is_periodic c"
  shows "map placement (obj_list (at_pass interaction box_energy the_force c k))
       = map placement (obj_list c)"
proof (induction k)
  case 0
  show ?case by (simp add: at_pass_def)
next
  case (Suc k)
  have "\<not> is_periodic (at_pass interaction box_energy the_force c k)"
    using assms at_pass_frame [of interaction box_energy the_force c k] by simp
  then show ?case using Suc by (simp add: at_pass_Suc spec_pass_placement)
qed





subsection \<open>Evaluating the arithmetic of doubles\<close>

lemma bitlen_numeral_rec:
  "bitlen (numeral (Num.Bit0 n)) = bitlen (numeral n) + 1"
  "bitlen (numeral (Num.Bit1 n)) = bitlen (numeral n) + 1"
  "bitlen 1 = 1"
  by (subst compute_bitlen, simp)+

lemmas binary64_eval =
  binary64_def exponent2_def pow2_def round_half_even_def bitlen_numeral_rec Let_def

lemma dbl_arith:
  "Dbl a + Dbl b = Dbl (binary64 (a + b))"
  "Dbl a - Dbl b = Dbl (binary64 (a - b))"
  "- Dbl a = Dbl (- a)"
  "\<bar>Dbl a\<bar> = Dbl \<bar>a\<bar>"
  "(Dbl a < Dbl b) = (a < b)"
  "(0 :: dbl) = Dbl 0"
  by (simp_all add: plus_dbl_def minus_dbl_def uminus_dbl_def abs_dbl_def less_dbl_def zero_dbl_def)

text \<open>
  The model against values an IEEE machine gives: a repeating fraction, a negative
  number, and two ties at \<open>2^53\<close> (to even: down, then up).
\<close>

lemma binary64_examples:
  "binary64 (1 / 3) = 6004799503160661 / 18014398509481984"
  "binary64 (- 7 / 10) = - 3152519739159347 / 4503599627370496"
  "binary64 9007199254740993 = 9007199254740992"
  "binary64 9007199254740995 = 9007199254740996"
  "binary64 10 = 10"
  by (simp_all add: binary64_eval)

text \<open>The double nearest to 0.1, and what adding 10 and subtracting it again leaves.\<close>

lemma binary64_tenth: "binary64 (1 / 10) = 3602879701896397 / 36028797018963968"
  by (simp add: binary64_eval)

lemma binary64_shift_and_back:
  "binary64 (binary64 (binary64 (1 / 10) + 10) - 10) = 56294995342131 / 562949953421312"
  by (simp add: binary64_eval)

subsection \<open>Evaluating the formatted output and input\<close>

declare digits.simps [simp del]

lemma digits_small: "n < 10 \<Longrightarrow> digits n = [digit_char n]"
  by (subst digits.simps) simp

lemma digits_large: "\<not> n < 10 \<Longrightarrow> digits n = digits (n div 10) @ [digit_char (n mod 10)]"
  by (subst digits.simps) simp

lemma replicate_numeral_Cons:
  "replicate (numeral k) x = x # replicate (pred_numeral k) x"
  by (simp add: numeral_eq_Suc)

lemma printf_9f_ten: "printf_9f 10 = ''10.000000''"
  by (simp add: printf_9f_def round_half_even_def pad_left_def digit_char_def digits_small
      digits_large replicate_numeral_Cons Let_def)

lemma starts_with_simps:
  "starts_with chs [] = False"
  "starts_with chs (ch # s) = (ch \<in> set chs)"
  by (simp_all add: starts_with_def)

lemma is_digit_chars:
  "is_digit (CHR ''0'')" "is_digit (CHR ''1'')" "is_digit (CHR ''2'')"
  "\<not> is_digit (CHR ''.'')" "\<not> is_digit (CHR '' '')" "\<not> is_digit (CHR 0x0A)"
  by (simp_all add: is_digit_def)

subsection \<open>The relief loop\<close>





section \<open>Claims\<close>

text \<open>
  C1 (as amended).  On a configuration with \<open>unchanged = false\<close>, \<^verbatim>\<open>config::energy\<close> goes
  through the objects in the order of their indices.  For an object whose flag
  \<open>recalculate\<close> is set it stores with \<^verbatim>\<open>set_energy\<close>, which clears the flag, the sum
  of the interactions with every other object, taken at its image when periodic and
  added in the order of the indices to \<open>0.0\<close>, plus the wall term when not periodic; the
  objects are read as they are stored when the pass of that object begins (\<open>at_pass\<close>:
  after line 135 and the passes of the loop for the objects before it).
  An object whose flag is not set keeps its cached energy.  Afterwards no object is
  flagged, \<open>saved_energy\<close> is the sum of the cached energies of all objects, added in the
  order of the indices to \<open>0.0\<close>, \<open>unchanged\<close> is set, and the value returned is
  \<open>saved_energy / 2.0\<close>.  The types and orientations of the objects are kept, and
  under walls their centres too.  With \<open>unchanged = true\<close> nothing is recomputed: the
  configuration is left as it is and the value returned is half of the
  \<open>saved_energy\<close> found.  This holds for every arithmetic on \<open>'r\<close>, that of doubles
  included, and for every interaction and wall function.  (In exact arithmetic, for
  an interaction that does not read the partner's cached energy or flag, the objects
  at every pass are those of the configuration given: \<open>energy_exact\<close>.)
\<close>

theorem energy_recompute:
  fixes c :: "('r::{zero,one,plus,minus,uminus,abs,ord,inverse}, 't) config"
  shows "(unchanged c \<longrightarrow>
            config_energy interaction box_energy the_force c = (saved_energy c / (1 + 1), c))
       \<and> (\<not> unchanged c \<longrightarrow>
            snd (config_energy interaction box_energy the_force c)
              = (at_pass interaction box_energy the_force c (n_objects c))\<lparr>unchanged := True\<rparr>
          \<and> (\<forall>i < n_objects c.
                get_energy (obj_list (snd (config_energy interaction box_energy the_force c)) ! i)
                  = (if recalculate (obj_list c ! i)
                     then pass_energy interaction box_energy the_force
                            (at_pass interaction box_energy the_force c i) i
                     else get_energy (obj_list c ! i)))
          \<and> map recalculate (obj_list (snd (config_energy interaction box_energy the_force c)))
              = map (\<lambda>_. False) (obj_list c)
          \<and> map rigid_part (obj_list (snd (config_energy interaction box_energy the_force c)))
              = map rigid_part (obj_list c)
          \<and> (\<not> is_periodic c \<longrightarrow>
                map placement (obj_list (snd (config_energy interaction box_energy the_force c)))
                  = map placement (obj_list c))
          \<and> saved_energy (snd (config_energy interaction box_energy the_force c))
              = foldl (+) 0 (map get_energy
                  (obj_list (snd (config_energy interaction box_energy the_force c))))
          \<and> unchanged (snd (config_energy interaction box_energy the_force c))
          \<and> fst (config_energy interaction box_energy the_force c)
              = saved_energy (snd (config_energy interaction box_energy the_force c)) / (1 + 1))
       \<and> (\<forall>i \<le> n_objects c.
             at_pass interaction box_energy the_force c i
               = fold (energy_object interaction box_energy the_force) [0..<i]
                   (c\<lparr>saved_energy := 0\<rparr>))"
proof (cases "unchanged c")
  case True
  have "fold (energy_object interaction box_energy the_force) [0..<i] (c\<lparr>saved_energy := 0\<rparr>)
      = at_pass interaction box_energy the_force c i" if "i \<le> length (obj_list c)" for i
    unfolding at_pass_def using that by (intro energy_outer_pass) simp
  then show ?thesis using True by (simp add: config_energy_passes n_objects_def)
next
  case False
  have start: "fold (energy_object interaction box_energy the_force) [0..<i] (c\<lparr>saved_energy := 0\<rparr>)
      = at_pass interaction box_energy the_force c i" if "i \<le> length (obj_list c)" for i
    unfolding at_pass_def using that by (intro energy_outer_pass) simp
  define n where "n = length (obj_list c)"
  define c' where "c' = at_pass interaction box_energy the_force c n"
  have res: "config_energy interaction box_energy the_force c
           = (saved_energy c' / (1 + 1), c'\<lparr>unchanged := True\<rparr>)"
    using False by (simp add: config_energy_passes c'_def n_def n_objects_def)
  have len: "length (obj_list c') = n"
    using at_pass_frame [of interaction box_energy the_force c n] by (simp add: c'_def n_def)
  have fields: "\<not> recalculate (obj_list c' ! i)
        \<and> cached_energy (obj_list c' ! i)
              = (if recalculate (obj_list c ! i)
                 then pass_energy interaction box_energy the_force
                        (at_pass interaction box_energy the_force c i) i
                 else cached_energy (obj_list c ! i))" if "i < n" for i
    using at_pass_fields [of n c i interaction box_energy the_force] that
    by (simp add: c'_def n_def)
  have flags: "map recalculate (obj_list c') = map (\<lambda>_. False) (obj_list c)"
    by (intro nth_equalityI) (simp_all add: len n_def [symmetric] fields)
  have saved: "saved_energy c' = foldl (+) 0 (map get_energy (obj_list c'))"
  proof -
    have "saved_energy c' = foldl (+) 0 (map cached_energy (take n (obj_list c')))"
      unfolding c'_def by (rule at_pass_saved) (simp add: n_def)
    moreover have "get_energy = (cached_energy :: 'r object \<Rightarrow> 'r)"
      by (simp add: fun_eq_iff get_energy_def)
    ultimately show ?thesis by (simp add: len)
  qed
  have rigid: "map rigid_part (obj_list c') = map rigid_part (obj_list c)"
    unfolding c'_def by (rule at_pass_rigid)
  have place: "map placement (obj_list c') = map placement (obj_list c)" if "\<not> is_periodic c"
    unfolding c'_def using that by (rule at_pass_placement)
  show ?thesis
    using False fields flags saved rigid place start
    by (simp add: res c'_def [symmetric] n_objects_def n_def [symmetric] get_energy_def)
qed

text \<open>
  The theorem in doubles, at the two flagged objects at \<open>x = 9.9\<close> and \<open>x = 0.1\<close> in a
  periodic box of 10, with the distance of the centres along \<open>x\<close> as interaction.  The
  pass of object 0 leaves object 1 at \<open>(0.1 + 10) - 10\<close>, and the energy stored for
  object 1 is computed from there.
\<close>

theorem energy_recompute_witness:
  "\<not> unchanged (near_edges :: (dbl, unit) config)
   \<and> map get_energy (obj_list (snd (config_energy (\<lambda>_ _ a b. \<bar>pos_x b - pos_x a\<bar>)
          (\<lambda>_ _ _ _ _. 0) () (near_edges :: (dbl, unit) config))))
       = [Dbl (56294995342131 / 281474976710656), Dbl (56294995342131 / 281474976710656)]
   \<and> map recalculate (obj_list (snd (config_energy (\<lambda>_ _ a b. \<bar>pos_x b - pos_x a\<bar>)
          (\<lambda>_ _ _ _ _. 0) () (near_edges :: (dbl, unit) config)))) = [False, False]
   \<and> saved_energy (snd (config_energy (\<lambda>_ _ a b. \<bar>pos_x b - pos_x a\<bar>)
          (\<lambda>_ _ _ _ _. 0) () (near_edges :: (dbl, unit) config)))
       = Dbl (56294995342131 / 140737488355328)
   \<and> fst (config_energy (\<lambda>_ _ a b. \<bar>pos_x b - pos_x a\<bar>)
          (\<lambda>_ _ _ _ _. 0) () (near_edges :: (dbl, unit) config))
       = Dbl (56294995342131 / 281474976710656)"
proof -
  let ?I = "\<lambda>(_::unit) (_::unit option) (a::dbl object) (b::dbl object). \<bar>pos_x b - pos_x a\<bar>"
  let ?W = "\<lambda>(_::unit) (_::unit option) (_::dbl) (_::dbl) (_::dbl object). 0 :: dbl"
  let ?c = "near_edges :: (dbl, unit) config"
  let ?c' = "snd (config_energy ?I ?W () ?c)"
  have u: "\<not> unchanged ?c" by (simp add: near_edges_def)
  have n: "n_objects ?c = 2" "length (obj_list ?c) = 2" by (simp_all add: near_edges_def n_objects_def)
  note T = energy_recompute [of ?c ?I ?W "()"]
  from T u have B: "\<forall>i < n_objects ?c. get_energy (obj_list ?c' ! i)
                  = (if recalculate (obj_list ?c ! i)
                     then pass_energy ?I ?W () (at_pass ?I ?W () ?c i) i
                     else get_energy (obj_list ?c ! i))"
    by blast
  from T u have F: "map recalculate (obj_list ?c') = map (\<lambda>_. False) (obj_list ?c)"
    by blast
  from T u have S: "saved_energy ?c' = foldl (+) 0 (map get_energy (obj_list ?c'))"
    by blast
  from T u have R: "fst (config_energy ?I ?W () ?c) = saved_energy ?c' / (1 + 1)"
    by blast
  have len: "length (obj_list ?c') = 2"
    using F n by (metis length_map)
  have p0: "pass_energy ?I ?W () (at_pass ?I ?W () ?c 0) 0 = Dbl (56294995342131 / 281474976710656)"
    by (simp add: at_pass_def pass_energy_def near_edges_def closest_image_def image_shift_def
        shifted_def new_object_def dbl_arith binary64_eval up2)
  have p1: "pass_energy ?I ?W () (at_pass ?I ?W () ?c 1) 1 = Dbl (56294995342131 / 281474976710656)"
    by (simp add: at_pass_def spec_pass_def pass_energy_def moved_back_def near_edges_def
        closest_image_def image_shift_def shifted_def unshifted_def set_energy_def
        new_object_def dbl_arith binary64_eval up2)
  have fl: "recalculate (obj_list ?c ! 0)" "recalculate (obj_list ?c ! 1)"
    by (simp_all add: near_edges_def new_object_def)
  have e0: "get_energy (obj_list ?c' ! 0) = Dbl (56294995342131 / 281474976710656)"
    using B [rule_format, of 0] n fl p0 by simp
  have e1: "get_energy (obj_list ?c' ! 1) = Dbl (56294995342131 / 281474976710656)"
    using B [rule_format, of 1] n fl p1 by simp
  have l2: "xs = [xs ! 0, xs ! 1]" if "length xs = 2" for xs :: "'a list"
    using that by (cases xs; cases "tl xs") auto
  have en: "map get_energy (obj_list ?c')
          = [Dbl (56294995342131 / 281474976710656), Dbl (56294995342131 / 281474976710656)]"
    using l2 [of "map get_energy (obj_list ?c')"] len e0 e1 by simp
  have "obj_list ?c = [obj_list ?c ! 0, obj_list ?c ! 1]"
    using n by (intro l2) simp
  then have "map (\<lambda>_. False) (obj_list ?c) = [False, False]"
    by (metis list.simps(8,9))
  then have fg: "map recalculate (obj_list ?c') = [False, False]"
    using F by simp
  have sv: "saved_energy ?c' = Dbl (56294995342131 / 140737488355328)"
    unfolding S en by (simp add: dbl_arith binary64_eval)
  have rt: "fst (config_energy ?I ?W () ?c) = Dbl (56294995342131 / 281474976710656)"
    unfolding R sv by (simp add: divide_dbl_def one_dbl_def dbl_arith binary64_eval)
  show ?thesis using u en fg sv rt by blast
qed

text \<open>
  C1 as stated ("for every configuration") fails where \<open>unchanged\<close> is true: the
  flagged object stays flagged, and \<open>saved_energy\<close> (5) is not the sum of the cached
  energies (0).
\<close>

theorem energy_recompute_counterexample:
  "unchanged (stale_copy :: (real, unit) config)
   \<and> recalculate (obj_list (snd (config_energy (\<lambda>_ _ _ _. 0) (\<lambda>_ _ _ _ _. 0) ()
        (stale_copy :: (real, unit) config))) ! 0)
   \<and> saved_energy (snd (config_energy (\<lambda>_ _ _ _. 0) (\<lambda>_ _ _ _ _. 0) ()
        (stale_copy :: (real, unit) config))) = 5
   \<and> sum_list (map get_energy (obj_list (snd (config_energy (\<lambda>_ _ _ _. 0) (\<lambda>_ _ _ _ _. 0) ()
        (stale_copy :: (real, unit) config)))))  = 0
   \<and> fst (config_energy (\<lambda>_ _ _ _. 0) (\<lambda>_ _ _ _ _. 0) () (stale_copy :: (real, unit) config)) = 5 / 2"
  by (simp add: stale_copy_def config_energy_def new_object_def get_energy_def)

text \<open>
  C2.  \<^verbatim>\<open>config::move\<close> and \<^verbatim>\<open>config::rotate\<close> leave the flag \<open>unchanged\<close> as they
  find it, whatever the object's own \<^verbatim>\<open>move\<close> and \<^verbatim>\<open>rotate\<close> do (\<open>None\<close>: the index is
  outside the list); \<^verbatim>\<open>config::expand\<close> clears it; \<^verbatim>\<open>config::energy\<close> always returns
  with the flag set.  So \<^verbatim>\<open>energy\<close>, \<^verbatim>\<open>move\<close>, \<^verbatim>\<open>energy\<close> in a row returns the energy
  from before the move: the second call finds \<open>unchanged = true\<close> and recomputes
  nothing.
\<close>

theorem move_rotate_keep_unchanged:
  fixes c :: "('r::{zero,one,plus,minus,uminus,abs,ord,inverse,times}, 't) config"
  shows "map_option (\<lambda>s. unchanged (fst s))
           (config_move ob_move ob_rotate two_pi k dl (c, g))
         = (if k < n_objects c then Some (unchanged c) else None)
       \<and> map_option (\<lambda>s. unchanged (fst s)) (config_rotate ob_rotate k theta (c, g))
         = (if k < n_objects c then Some (unchanged c) else None)
       \<and> unchanged (config_expand ob_expand factor c) = False
       \<and> unchanged (snd (config_energy interaction box_energy the_force c)) = True
       \<and> (case config_move ob_move ob_rotate two_pi k dl
                  (snd (config_energy interaction box_energy the_force c), g) of
            None \<Rightarrow> True
          | Some (c', g') \<Rightarrow>
              config_energy interaction box_energy the_force c'
                = (fst (config_energy interaction box_energy the_force c), c'))"
  by (simp add: config_move_def config_rotate_def config_expand_def config_energy_def
      n_objects_def Let_def split: prod.splits)







text \<open>
  C5.  The empty configuration with \<open>Lx = 10\<close>, \<open>Ly = 10\<close> is written as the text
  \<^verbatim>\<open>10.0000002 10.0000002 \<close>, newline, \<^verbatim>\<open>0\<close>, newline: the format \<^verbatim>\<open>%9f2\<close> prints the
  character 2 after each size.  The file constructor reads it back as a
  configuration with no object and both sizes equal to the double nearest to
  10.0000002, which is not 10.  The reloaded configuration has no object and
  its energy is 0.
\<close>

theorem write_read_empty_ten:
  "config_write real_of ob_write (empty_ten :: (dbl, 't) config)
     = ''10.0000002 10.0000002 '' @ [newline] @ ''0'' @ [newline]
   \<and> config_read (\<lambda>v. Dbl (binary64 v)) mk
         (config_write real_of ob_write (empty_ten :: (dbl, 't) config))
     = Some ((empty_ten :: (dbl, 't) config)
               \<lparr>x_size := Dbl (5629499646803111 / 562949953421312),
                y_size := Dbl (5629499646803111 / 562949953421312)\<rparr>)
   \<and> Dbl (5629499646803111 / 562949953421312) \<noteq> x_size (empty_ten :: (dbl, 't) config)
   \<and> n_objects ((empty_ten :: (dbl, 't) config)
               \<lparr>x_size := Dbl (5629499646803111 / 562949953421312),
                y_size := Dbl (5629499646803111 / 562949953421312)\<rparr>) = 0
   \<and> fst (config_energy interaction box_energy the_force
            ((empty_ten :: (dbl, 't) config)
               \<lparr>x_size := Dbl (5629499646803111 / 562949953421312),
                y_size := Dbl (5629499646803111 / 562949953421312)\<rparr>)) = 0"
proof -
  have w: "config_write real_of ob_write (empty_ten :: (dbl, 't) config)
     = ''10.0000002 10.0000002 '' @ [newline] @ ''0'' @ [newline]"
    by (simp add: config_write_def empty_ten_def printf_9f_ten printf_d_def digit_char_def
        digits_small)
  have r: "config_read (\<lambda>v. Dbl (binary64 v)) mk
             (''10.0000002 10.0000002 '' @ [newline] @ ''0'' @ [newline])
     = Some ((empty_ten :: (dbl, 't) config)
               \<lparr>x_size := Dbl (5629499646803111 / 562949953421312),
                y_size := Dbl (5629499646803111 / 562949953421312)\<rparr>)"
    by (simp add: config_read_def scan_lf_def scan_d_def scan_sign_def skip_space_def
        is_space_def is_digit_chars digits_value_def empty_ten_def newline_def
        starts_with_simps to_long_def to_int32_def binary64_eval zero_dbl_def)
  have n: "Dbl (5629499646803111 / 562949953421312) \<noteq> x_size (empty_ten :: (dbl, 't) config)"
    by (simp add: empty_ten_def)
  have e: "fst (config_energy interaction box_energy the_force
            ((empty_ten :: (dbl, 't) config)
               \<lparr>x_size := Dbl (5629499646803111 / 562949953421312),
                y_size := Dbl (5629499646803111 / 562949953421312)\<rparr>)) = 0"
    by (simp add: config_energy_def empty_ten_def divide_dbl_def zero_dbl_def binary64_def)
  have k: "n_objects ((empty_ten :: (dbl, 't) config)
               \<lparr>x_size := Dbl (5629499646803111 / 562949953421312),
                y_size := Dbl (5629499646803111 / 562949953421312)\<rparr>) = 0"
    by (simp add: n_objects_def empty_ten_def)
  show ?thesis unfolding w using r n e k by simp
qed

text \<open>
  C6.  On two flagged objects at \<open>x = 9.9\<close> and \<open>x = 0.1\<close> in a periodic box of 10,
  \<^verbatim>\<open>config::energy\<close> changes the position of the second object: for the pair (0, 1) it
  adds 10 to \<open>pos_x\<close> and subtracts 10 again, and in the arithmetic of doubles
  \<open>(0.1 + 10) - 10\<close> is \<open>0.09999999999999964\<close>, not \<open>0.1\<close>.  This holds for every
  interaction and wall function.  (In exact arithmetic the shift is undone,
  \<open>energy_frame_exact\<close>; in every arithmetic the types and orientations are kept,
  \<open>energy_frame_rounded\<close>.)
\<close>

theorem energy_shift_not_undone:
  "pos_x (obj_list (near_edges :: (dbl, 't) config) ! 1)
     = Dbl (3602879701896397 / 36028797018963968)
   \<and> pos_x (obj_list (snd (config_energy interaction box_energy the_force
                              (near_edges :: (dbl, 't) config))) ! 1)
     = Dbl (56294995342131 / 562949953421312)
   \<and> pos_x (obj_list (snd (config_energy interaction box_energy the_force
                              (near_edges :: (dbl, 't) config))) ! 1)
     \<noteq> pos_x (obj_list (near_edges :: (dbl, 't) config) ! 1)"
  by (simp add: near_edges_def config_energy_def energy_object_def energy_pair_def
      image_shift_def shifted_def unshifted_def set_energy_def get_energy_def new_object_def
      dbl_arith binary64_eval up2)

text \<open>
  C7.  \<^verbatim>\<open>config::energy\<close> is idempotent between state changes: on a configuration
  with \<open>unchanged = true\<close> a call returns half the saved energy and leaves the
  configuration as it is, whatever the force field, the interaction and the wall
  function are (nothing is recomputed), so a second call returns the identical value
  and \<open>unchanged\<close> is still true.  This holds for every arithmetic on \<open>'r\<close>.
\<close>

theorem energy_idempotent:
  fixes c :: "('r::{zero,one,plus,minus,uminus,abs,ord,inverse}, 't) config"
  assumes "unchanged c"
  shows "config_energy interaction box_energy the_force c = (saved_energy c / (1 + 1), c)
       \<and> config_energy interaction' box_energy' the_force' c
           = config_energy interaction box_energy the_force c
       \<and> config_energy interaction box_energy the_force
           (snd (config_energy interaction box_energy the_force c))
         = config_energy interaction box_energy the_force c
       \<and> unchanged (snd (config_energy interaction box_energy the_force
           (snd (config_energy interaction box_energy the_force c))))"
  using assms by (simp add: config_energy_def)

text \<open>
  The theorem at two objects that have been moved since the last call: both are
  flagged, \<open>saved_energy\<close> is 6 and \<open>unchanged\<close> is still set.  Both calls return 3 and
  leave the configuration as it is, although a recomputation (the same configuration
  with \<open>unchanged\<close> cleared) gives 1.
\<close>

theorem energy_idempotent_witness:
  "unchanged (moved_pair :: (real, unit) config)
   \<and> n_objects (moved_pair :: (real, unit) config) = 2
   \<and> config_energy (\<lambda>_ _ _ _. 1) (\<lambda>_ _ _ _ _. 1) () (moved_pair :: (real, unit) config)
       = (3, moved_pair)
   \<and> config_energy (\<lambda>_ _ _ _. 1) (\<lambda>_ _ _ _ _. 1) ()
        (snd (config_energy (\<lambda>_ _ _ _. 1) (\<lambda>_ _ _ _ _. 1) () (moved_pair :: (real, unit) config)))
       = (3, moved_pair)
   \<and> fst (config_energy (\<lambda>_ _ _ _. 1) (\<lambda>_ _ _ _ _. 1) ()
        ((moved_pair :: (real, unit) config)\<lparr>unchanged := False\<rparr>)) = 1"
proof -
  have u: "unchanged (moved_pair :: (real, unit) config)"
    by (simp add: moved_pair_def)
  have s: "saved_energy (moved_pair :: (real, unit) config) = 6"
      "n_objects (moved_pair :: (real, unit) config) = 2"
    by (simp_all add: moved_pair_def n_objects_def)
  have r: "fst (config_energy (\<lambda>_ _ _ _. 1) (\<lambda>_ _ _ _ _. 1) ()
        ((moved_pair :: (real, unit) config)\<lparr>unchanged := False\<rparr>)) = 1"
    by (simp add: moved_pair_def config_energy_def energy_object_def energy_pair_def
      set_energy_def get_energy_def new_object_def up2 shifted_def unshifted_def Let_def)
  show ?thesis
    using u s r energy_idempotent [OF u, of "\<lambda>_ _ _ _. 1" "\<lambda>_ _ _ _ _. 1" "()"
                                   "\<lambda>_ _ _ _. 1" "\<lambda>_ _ _ _ _. 1" "()"]
    by simp
qed

text \<open>
  C8 (as amended).  \<^verbatim>\<open>config::invalidate_within(d, k)\<close>, for an index \<open>k\<close> inside the
  list, sets \<open>recalculate\<close> on every object other than \<open>k\<close> whose distance from object
  \<open>k\<close>, as \<^verbatim>\<open>object::distance\<close> gives it for the box and the periodic flag of the
  configuration, is less than \<open>d\<close>; it leaves object \<open>k\<close>, every other object, every
  other field of the flagged objects and every field of the configuration as they
  are.
\<close>

theorem invalidate_within_others:
  "config_invalidate_within ob_distance distance index c =
     (if index < n_objects c then
        Some (c\<lparr>obj_list :=
          map (\<lambda>i. if i \<noteq> index \<and>
                       ob_distance (obj_list c ! index) (obj_list c ! i)
                                   (x_size c) (y_size c) (is_periodic c) < distance
                    then (obj_list c ! i)\<lparr>recalculate := True\<rparr> else obj_list c ! i)
              [0..<n_objects c]\<rparr>)
      else None)"
proof (cases "index < length (obj_list c)")
  case True
  have "map (\<lambda>i. if i \<in> set [0..<length (obj_list c)] \<and> i \<noteq> index \<and>
                 ob_distance (obj_list c ! index) (obj_list c ! i) (x_size c) (y_size c) (is_periodic c) < distance
               then (obj_list c ! i)\<lparr>recalculate := True\<rparr> else obj_list c ! i)
            [0..<length (obj_list c)]
      = map (\<lambda>i. if i \<noteq> index \<and>
                 ob_distance (obj_list c ! index) (obj_list c ! i) (x_size c) (y_size c) (is_periodic c) < distance
               then (obj_list c ! i)\<lparr>recalculate := True\<rparr> else obj_list c ! i)
            [0..<length (obj_list c)]"
    by (rule map_cong [OF refl]) simp
  then show ?thesis
    using True invalidate_fold [of "[0..<length (obj_list c)]" index c ob_distance distance]
    by (simp add: config_invalidate_within_def n_objects_def)
next
  case False
  then show ?thesis by (simp add: config_invalidate_within_def n_objects_def)
qed

text \<open>
  C8 as stated ("every object ... within d") fails at the reference object itself,
  which is at distance 0 from itself and is not flagged, and at an object at distance
  exactly \<open>d\<close> (centres \<open>(1, 1)\<close> and \<open>(4, 5)\<close>, \<open>d = 5\<close>), which is not flagged either.
\<close>

theorem invalidate_within_counterexample:
  "object_distance (obj_list (one_object :: (real, unit) config) ! 0)
                   (obj_list (one_object :: (real, unit) config) ! 0) 10 10 True < 1
   \<and> config_invalidate_within object_distance 1 0 (one_object :: (real, unit) config)
       = Some one_object
   \<and> recalculate (obj_list (one_object :: (real, unit) config) ! 0) = False
   \<and> object_distance (obj_list (five_apart :: (real, unit) config) ! 0)
                     (obj_list (five_apart :: (real, unit) config) ! 1) 10 10 False = 5
   \<and> config_invalidate_within object_distance 5 0 (five_apart :: (real, unit) config)
       = Some five_apart"
proof -
  have s25: "sqrt 25 = 5" by (rule real_sqrt_unique) simp_all
  show ?thesis
    by (simp add: one_object_def five_apart_def new_object_def object_distance_def
        image_shift_def config_invalidate_within_def invalidate_step_def n_objects_def Let_def s25)
qed

text \<open>
  C10.  The copy constructor copies \<open>x_size\<close>, \<open>y_size\<close>, \<open>is_periodic\<close>,
  \<open>saved_energy\<close> and \<open>unchanged\<close>; its object list has, in the same order, one object
  per object of the original with the same type, position and orientation; the
  topology is the newly constructed one whatever the original's is; and every copied
  object has the energy and the flag the object constructor gives (\<open>e0\<close>, \<open>r0\<close>), not
  those of the original's objects.
\<close>

theorem copy_constructor:
  "x_size (config_copy (new_object e0 r0) new_topology orig) = x_size orig
   \<and> y_size (config_copy (new_object e0 r0) new_topology orig) = y_size orig
   \<and> is_periodic (config_copy (new_object e0 r0) new_topology orig) = is_periodic orig
   \<and> saved_energy (config_copy (new_object e0 r0) new_topology orig) = saved_energy orig
   \<and> unchanged (config_copy (new_object e0 r0) new_topology orig) = unchanged orig
   \<and> map placement (obj_list (config_copy (new_object e0 r0) new_topology orig))
       = map placement (obj_list orig)
   \<and> the_topology (config_copy (new_object e0 r0) new_topology orig) = Some new_topology
   \<and> map (\<lambda>ob. (cached_energy ob, recalculate ob))
         (obj_list (config_copy (new_object e0 r0) new_topology orig))
       = replicate (n_objects orig) (e0, r0)"
  by (simp add: config_copy_def new_object_def n_objects_def placement_def o_def
      map_replicate_const)

end
